theory Spec2Isabelle
  imports Complex_Main "HOL-Library.Word"
begin

unbundle bit_operations_syntax

section \<open>Data model\<close>

text \<open>
  A card is a Scryfall card object. Only the fields the booster logic reads are kept.
  \<open>promo_types\<close> and \<open>frame_effects\<close> may be missing from the object (\<open>None\<close>); the
  code reads them as \<open>card.promo_types || []\<close>. Strings are lists of 8-bit characters,
  that is JavaScript strings whose code units are below 256.
\<close>

record card =
  card_id :: string
  collector_number :: string
  rarity :: string
  promo_types :: "string list option"
  frame_effects :: "string list option"
  booster :: bool

text \<open>
  The set configuration built by \<open>fetchSetConfig\<close>. The two optional chains
  \<open>setConfig?.playBooster?.includeCollectorNumbers\<close> and
  \<open>setConfig?.collectorExclusive?.collectorNumbers\<close> are each one optional list of
  range strings (an array, even an empty one, is truthy).
\<close>

record setConfig =
  playBooster :: "string list option"
  collectorExclusive :: "string list option"

definition COLLECTOR_EXCLUSIVE_PROMOS :: "string list" where
  "COLLECTOR_EXCLUSIVE_PROMOS =
     [''fracturefoil'', ''texturedfoil'', ''ripplefoil'',
      ''halofoil'', ''confettifoil'', ''galaxyfoil'', ''surgefoil'',
      ''raisedfoil'', ''headliner'']"

definition COLLECTOR_EXCLUSIVE_FRAMES :: "string list" where
  "COLLECTOR_EXCLUSIVE_FRAMES = [''inverted'', ''extendedart'']"

section \<open>Numbers as text\<close>

text \<open>The decimal numeral of a natural number, as string concatenation with a number prints it.\<close>

fun decimal :: "nat \<Rightarrow> string" where
  "decimal n =
     (if n < 10 then [char_of (48 + n)]
      else decimal (n div 10) @ [char_of (48 + n mod 10)])"

declare decimal.simps [simp del]

section \<open>Range matcher\<close>

text \<open>
  \<open>parseInt(s, 10)\<close>: leading white space is skipped, one sign is read, then the longest
  run of decimal digits; \<open>None\<close> is NaN (no digit). The value is an exact integer here
  (a double in the source, exact below \<open>2 ^ 53\<close>).
\<close>

definition isWhiteSpace :: "char \<Rightarrow> bool" where
  "isWhiteSpace c = (of_char c \<in> {9, 10, 11, 12, 13, 32, 160 :: nat})"

definition isDigit :: "char \<Rightarrow> bool" where
  "isDigit c = (48 \<le> (of_char c :: nat) \<and> (of_char c :: nat) \<le> 57)"

definition digitsValue :: "string \<Rightarrow> nat" where
  "digitsValue ds = foldl (\<lambda>a c. 10 * a + (of_char c - 48)) 0 ds"

definition parseInt10 :: "string \<Rightarrow> int option" where
  "parseInt10 s =
     (let t = dropWhile isWhiteSpace s;
          neg = (t \<noteq> [] \<and> hd t = CHR ''-'');
          u = (if t \<noteq> [] \<and> (hd t = CHR ''-'' \<or> hd t = CHR ''+'') then tl t else t);
          ds = takeWhile isDigit u
      in if ds = [] then None
         else Some (if neg then - int (digitsValue ds) else int (digitsValue ds)))"

text \<open>\<open>str.split(d)\<close> for a one-character separator.\<close>

fun splitOn :: "char \<Rightarrow> string \<Rightarrow> string list" where
  "splitOn d [] = [[]]"
| "splitOn d (c # cs) =
     (if c = d then [] # splitOn d cs
      else (case splitOn d cs of
              [] \<Rightarrow> [[c]]
            | p # ps \<Rightarrow> (c # p) # ps))"

text \<open>
  \<open>isInRange(cn, rangeStr)\<close>. A comparison with NaN is false, so a bound that does not
  parse makes the dashed test false.
\<close>

definition isInRange :: "string \<Rightarrow> string \<Rightarrow> bool" where
  "isInRange cn rangeStr =
     (case parseInt10 cn of
        None \<Rightarrow> False
      | Some cnNum \<Rightarrow>
          if CHR ''-'' \<in> set rangeStr then
            (case map parseInt10 (splitOn (CHR ''-'') rangeStr) of
               Some start # Some end # _ \<Rightarrow> cnNum \<ge> start \<and> cnNum \<le> end
             | _ \<Rightarrow> False)
          else parseInt10 rangeStr = Some cnNum)"

section \<open>Exclusivity classifier\<close>

text \<open>The three-valued answers \<open>true\<close>, \<open>false\<close>, \<open>null\<close> are \<open>bool option\<close>.\<close>

definition isInPlayBooster :: "card \<Rightarrow> setConfig option \<Rightarrow> bool option" where
  "isInPlayBooster c cfg =
     (case cfg of
        None \<Rightarrow> None
      | Some sc \<Rightarrow>
          (case playBooster sc of
             None \<Rightarrow> None
           | Some ranges \<Rightarrow> Some (list_ex (\<lambda>range. isInRange (collector_number c) range) ranges)))"

definition isCollectorExclusiveByConfig :: "card \<Rightarrow> setConfig option \<Rightarrow> bool option" where
  "isCollectorExclusiveByConfig c cfg =
     (case cfg of
        None \<Rightarrow> None
      | Some sc \<Rightarrow>
          (case collectorExclusive sc of
             None \<Rightarrow> None
           | Some ranges \<Rightarrow> Some (list_ex (\<lambda>range. isInRange (collector_number c) range) ranges)))"

text \<open>The generic rule at the end of \<open>isCollectorExclusive\<close>.\<close>

definition genericExclusive :: "card \<Rightarrow> bool" where
  "genericExclusive c =
     (let promos = (case promo_types c of None \<Rightarrow> [] | Some ps \<Rightarrow> ps);
          frames = (case frame_effects c of None \<Rightarrow> [] | Some fs \<Rightarrow> fs);
          hasExclusivePromo = list_ex (\<lambda>p. p \<in> set COLLECTOR_EXCLUSIVE_PROMOS) promos;
          hasExclusiveFrame = list_ex (\<lambda>f. f \<in> set COLLECTOR_EXCLUSIVE_FRAMES) frames
      in hasExclusivePromo \<or> hasExclusiveFrame)"

definition isCollectorExclusive :: "card \<Rightarrow> setConfig option \<Rightarrow> bool" where
  "isCollectorExclusive c cfg =
     (case cfg of
        None \<Rightarrow> genericExclusive c
      | Some sc \<Rightarrow>
          (let inPlayBooster = isInPlayBooster c (Some sc) in
           if inPlayBooster = Some True then False
           else if inPlayBooster = Some False
                   \<and> isCollectorExclusiveByConfig c (Some sc) = Some True then True
           else genericExclusive c))"

section \<open>Fetching with retries\<close>

text \<open>
  What one call of \<open>fetch(url)\<close> can give: the promise rejects (\<open>NetworkError\<close>, with
  the error's message), or it resolves to a response with a status and a body. Reading
  the body with \<open>response.json()\<close> either throws (\<open>Inl\<close>, the message) or gives the
  parsed value (\<open>Inr\<close>). The network is a sequence of such results: \<open>net k\<close> is what the
  \<open>k\<close>-th call of \<open>fetch\<close> gives, counting from 0.
\<close>

datatype 'a fetched = NetworkError string | Response nat "string + 'a"

text \<open>
  What \<open>fetchWithRetry\<close> does in the end: it returns the parsed value, it returns
  \<open>undefined\<close> by leaving the loop, or it throws an error (its message).
\<close>

datatype 'a outcome = Returned 'a | ReturnedUndefined | Thrown string

record 'a retryRun =
  outcome :: "'a outcome"
  calls :: nat
  pauses :: "nat list"

definition response_ok :: "nat \<Rightarrow> bool" where
  "response_ok status = (200 \<le> status \<and> status \<le> 299)"

text \<open>
  The loop \<open>for (let i = 0; i < retries; i++)\<close>. The state is the loop variable \<open>i\<close>,
  the number \<open>k\<close> of calls of \<open>fetch\<close> made so far, and the pauses taken so far (the
  arguments of \<open>delay\<close>, in milliseconds). \<open>continue\<close> and the end of the \<open>catch\<close>
  block both go to the increment \<open>i++\<close>.
\<close>

function fetchLoop :: "(nat \<Rightarrow> 'a fetched) \<Rightarrow> nat \<Rightarrow> nat \<Rightarrow> nat \<Rightarrow> nat list \<Rightarrow> 'a retryRun" where
  "fetchLoop net retries i k ps =
     (if i < retries then
        (let caught = (\<lambda>error.
               if Suc i = retries then \<lparr>outcome = Thrown error, calls = Suc k, pauses = ps\<rparr>
               else fetchLoop net retries (Suc i) (Suc k) (ps @ [100 * (i + 1)]))
         in case net k of
              NetworkError error \<Rightarrow> caught error
            | Response status body \<Rightarrow>
                if status = 429 then fetchLoop net retries (Suc i) (Suc k) (ps @ [1000])
                else if \<not> response_ok status then caught (''HTTP '' @ decimal status)
                else (case body of
                        Inl error \<Rightarrow> caught error
                      | Inr json \<Rightarrow> \<lparr>outcome = Returned json, calls = Suc k, pauses = ps\<rparr>))
      else \<lparr>outcome = ReturnedUndefined, calls = k, pauses = ps\<rparr>)"
  by pat_completeness auto
termination
  by (relation "measure (\<lambda>(net, retries, i, k, ps). retries - i)") auto

declare fetchLoop.simps [simp del]

definition fetchWithRetry :: "(nat \<Rightarrow> 'a fetched) \<Rightarrow> nat \<Rightarrow> 'a retryRun" where
  "fetchWithRetry net retries = fetchLoop net retries 0 0 []"

text \<open>The response of a rate-limited call, and the pause that follows the \<open>k\<close>-th call
  when the loop goes on after it.\<close>

definition rateLimited :: "'a fetched \<Rightarrow> bool" where
  "rateLimited r = (case r of NetworkError _ \<Rightarrow> False | Response status _ \<Rightarrow> status = 429)"

definition pauseAfter :: "(nat \<Rightarrow> 'a fetched) \<Rightarrow> nat \<Rightarrow> nat" where
  "pauseAfter net k = (if rateLimited (net k) then 1000 else 100 * (k + 1))"

section \<open>Random sources\<close>

text \<open>
  The \<open>seed\<close> argument of the generators is \<open>null\<close> (\<open>None\<close>), a number or a string.
  Numbers are the integer-valued ones (fractions and NaN are left out); \<open>seed |= 0\<close>
  reduces them to 32 bits.
\<close>

datatype seed = SeedNumber int | SeedString string

text \<open>The truth value of \<open>seed\<close> in \<open>seed ? seededRandom(seed) : Math.random\<close>:
  \<open>null\<close>, the number 0 and the empty string are falsy.\<close>

definition truthy :: "seed option \<Rightarrow> bool" where
  "truthy s =
     (case s of
        None \<Rightarrow> False
      | Some (SeedNumber n) \<Rightarrow> n \<noteq> 0
      | Some (SeedString str) \<Rightarrow> str \<noteq> [])"

text \<open>\<open>hashString\<close>: \<open>hash = ((hash << 5) - hash) + char; hash |= 0\<close> for each character.\<close>

definition hashString :: "string \<Rightarrow> 32 word" where
  "hashString str = foldl (\<lambda>hash c. (push_bit 5 hash - hash) + of_nat (of_char c)) 0 str"

text \<open>
  One call of the closure that \<open>seededRandom\<close> returns (mulberry32): from the state
  \<open>seed\<close> to the number returned and the new state. \<open>Math.imul\<close> is the product of
  32-bit words, \<open>>>>\<close> the logical shift, and \<open>(x >>> 0) / 4294967296\<close> reads the word
  as unsigned and scales it to the unit interval; the quotient is exact in a double.
\<close>

definition mulberry32 :: "32 word \<Rightarrow> rat \<times> 32 word" where
  "mulberry32 seed0 =
     (let seed = seed0 + 0x6D2B79F5;
          t = (seed XOR drop_bit 15 seed) * (1 OR seed);
          t' = (t + (t XOR drop_bit 7 t) * (61 OR t)) XOR t
      in (of_nat (unat (t' XOR drop_bit 14 t')) / 4294967296, seed))"

text \<open>The state \<open>seededRandom(seed)\<close> starts from.\<close>

definition seededRandom :: "seed \<Rightarrow> 32 word" where
  "seededRandom s = (case s of SeedString str \<Rightarrow> hashString str | SeedNumber n \<Rightarrow> word_of_int n)"

text \<open>
  The function \<open>random\<close> of a generator is the seeded closure with its state, or
  \<open>Math.random\<close>. What \<open>Math.random\<close> will return is not determined by the program: it
  is the sequence \<open>env\<close> of the numbers that its next calls give.
\<close>

datatype random = Mulberry32 "32 word" | MathRandom "nat \<Rightarrow> rat"

fun draw :: "random \<Rightarrow> rat \<times> random" where
  "draw (Mulberry32 s) = (fst (mulberry32 s), Mulberry32 (snd (mulberry32 s)))"
| "draw (MathRandom env) = (env 0, MathRandom (\<lambda>n. env (Suc n)))"

definition newRandom :: "seed option \<Rightarrow> (nat \<Rightarrow> rat) \<Rightarrow> random" where
  "newRandom seed env =
     (case seed of
        None \<Rightarrow> MathRandom env
      | Some s \<Rightarrow> if truthy seed then Mulberry32 (seededRandom s) else MathRandom env)"

text \<open>
  \<open>pickRandom(arr, random)\<close> is \<open>arr[Math.floor(random() * arr.length)]\<close>; an index
  outside the array reads \<open>undefined\<close> (\<open>None\<close>). The product is taken exactly (in
  doubles it is exact for a seeded draw and an array shorter than \<open>2 ^ 21\<close>).
\<close>

definition floorIndex :: "rat \<Rightarrow> 'a list \<Rightarrow> 'a option" where
  "floorIndex r arr =
     (let idx = \<lfloor>r * of_nat (length arr)\<rfloor>
      in if 0 \<le> idx \<and> nat idx < length arr then Some (arr ! nat idx) else None)"

definition pickRandom :: "'a list \<Rightarrow> random \<Rightarrow> 'a option \<times> random" where
  "pickRandom arr random = (floorIndex (fst (draw random)) arr, snd (draw random))"

text \<open>A \<open>for\<close> loop that runs its body \<open>n\<close> times on the state.\<close>

fun repeatN :: "nat \<Rightarrow> ('s \<Rightarrow> 's) \<Rightarrow> 's \<Rightarrow> 's" where
  "repeatN 0 body st = st"
| "repeatN (Suc n) body st = repeatN n body (body st)"

section \<open>Legacy sealed pool generator\<close>

text \<open>The catalog grouped by rarity, as the object \<open>byRarity\<close>.\<close>

record byRarity =
  common :: "card list"
  uncommon :: "card list"
  rare :: "card list"
  mythic :: "card list"

definition groupByRarity :: "card list \<Rightarrow> byRarity" where
  "groupByRarity cards =
     \<lparr>common = filter (\<lambda>c. rarity c = ''common'') cards,
      uncommon = filter (\<lambda>c. rarity c = ''uncommon'') cards,
      rare = filter (\<lambda>c. rarity c = ''rare'') cards,
      mythic = filter (\<lambda>c. rarity c = ''mythic'') cards\<rparr>"

text \<open>
  The state of the pack loop is the array \<open>pool\<close> and the random source. The legacy
  generator pushes what \<open>pickRandom\<close> returns without looking at it, so an entry of its
  pool is a card or \<open>undefined\<close>.
\<close>

type_synonym genState = "card option list \<times> random"

text \<open>\<open>if (bucket.length > 0) pool.push(pickRandom(bucket, random))\<close>.\<close>

definition pushPick :: "card list \<Rightarrow> genState \<Rightarrow> genState" where
  "pushPick bucket st =
     (if bucket \<noteq> [] then
        (fst st @ [fst (pickRandom bucket (snd st))], snd (pickRandom bucket (snd st)))
      else st)"

text \<open>
  The rare-or-mythic draw that opens each pack. \<open>random()\<close> is called before the length
  of the mythic bucket is looked at, so it is called in every pack. The two copies of the
  generator differ in the constant only: \<open>threshold\<close> is 0.125 in the copy that also has
  the booster-data generator and 1/7 in \<open>shared/mtg.js\<close>.
\<close>

definition rareOrMythicDraw :: "rat \<Rightarrow> byRarity \<Rightarrow> genState \<Rightarrow> genState" where
  "rareOrMythicDraw threshold b st =
     (let isMythic = (fst (draw (snd st)) < threshold \<and> mythic b \<noteq> []);
          rarePool = (if isMythic then mythic b else rare b)
      in pushPick rarePool (fst st, snd (draw (snd st))))"

definition legacyPack :: "rat \<Rightarrow> byRarity \<Rightarrow> genState \<Rightarrow> genState" where
  "legacyPack threshold b st =
     repeatN 10 (pushPick (common b))
       (repeatN 3 (pushPick (uncommon b))
          (rareOrMythicDraw threshold b st))"

definition generateSealedPoolWith :: "rat \<Rightarrow> card list \<Rightarrow> seed option \<Rightarrow> (nat \<Rightarrow> rat) \<Rightarrow> card option list" where
  "generateSealedPoolWith threshold cards seed env =
     fst (repeatN 6 (legacyPack threshold (groupByRarity cards)) ([], newRandom seed env))"

text \<open>\<open>generateSealedPool\<close> of the copy with the booster-data generator.\<close>

definition generateSealedPool :: "card list \<Rightarrow> seed option \<Rightarrow> (nat \<Rightarrow> rat) \<Rightarrow> card option list" where
  "generateSealedPool = generateSealedPoolWith (1 / 8)"

text \<open>\<open>generateSealedPool\<close> of \<open>shared/mtg.js\<close>.\<close>

definition generateSealedPool_shared :: "card list \<Rightarrow> seed option \<Rightarrow> (nat \<Rightarrow> rat) \<Rightarrow> card option list" where
  "generateSealedPool_shared = generateSealedPoolWith (1 / 7)"

section \<open>Sealed pool generator driven by booster data\<close>

text \<open>
  A slot of a booster file. Each field may be missing. \<open>slot_pool\<close> is the object that
  maps a finish to its list of ranges, in the order of its keys; \<open>slot_count\<close> is a whole
  number.
\<close>

record slot =
  slot_count :: "nat option"
  slot_rarities :: "string list option"
  slot_mythicRate :: "rat option"
  slot_pool :: "(string \<times> string list) list option"

record boosterFile =
  slots :: "slot list option"

text \<open>All ranges of a slot: \<open>for (const finishRanges of Object.values(slot.pool))
  ranges.push(...finishRanges)\<close>.\<close>

definition slotRanges :: "(string \<times> string list) list \<Rightarrow> string list" where
  "slotRanges p = concat (map snd p)"

definition inRanges :: "string list \<Rightarrow> card \<Rightarrow> bool" where
  "inRanges ranges c = list_ex (\<lambda>range. isInRange (collector_number c) range) ranges"

text \<open>
  The object \<open>cardsByRarityInPool\<close>, from a rarity to its array of cards. A rarity is
  any text that is not the name of a property that every object inherits.
\<close>

type_synonym rarityDict = "string \<Rightarrow> card list option"

text \<open>\<open>for (const card of matching) if (!bucket.some(c => c.id === card.id))
  bucket.push(card)\<close>.\<close>

fun addUnique :: "card list \<Rightarrow> card list \<Rightarrow> card list" where
  "addUnique bucket [] = bucket"
| "addUnique bucket (c # matching) =
     addUnique (if list_ex (\<lambda>x. card_id x = card_id c) bucket then bucket else bucket @ [c])
       matching"

definition addRarity :: "card list \<Rightarrow> string list \<Rightarrow> rarityDict \<Rightarrow> string \<Rightarrow> rarityDict" where
  "addRarity cards ranges dict r =
     (let bucket = (case dict r of None \<Rightarrow> [] | Some b \<Rightarrow> b);
          matching = filter (\<lambda>c. rarity c = r \<and> inRanges ranges c) cards
      in dict(r \<mapsto> addUnique bucket matching))"

definition groupSlot :: "card list \<Rightarrow> rarityDict \<Rightarrow> slot \<Rightarrow> rarityDict" where
  "groupSlot cards dict s =
     (case slot_pool s of
        None \<Rightarrow> dict
      | Some p \<Rightarrow>
          (case slot_rarities s of
             None \<Rightarrow> dict
           | Some rs \<Rightarrow> foldl (addRarity cards (slotRanges p)) dict rs))"

definition cardsByRarityInPool :: "card list \<Rightarrow> slot list \<Rightarrow> rarityDict" where
  "cardsByRarityInPool cards ss = foldl (groupSlot cards) Map.empty ss"

definition allInPool :: "card list \<Rightarrow> slot list \<Rightarrow> card list" where
  "allInPool cards ss =
     filter (\<lambda>c. list_ex (\<lambda>s. case slot_pool s of
                                 None \<Rightarrow> False
                               | Some p \<Rightarrow> inRanges (slotRanges p) c) ss) cards"

text \<open>The array of a rarity, \<open>cardsByRarityInPool[rarity] || []\<close>.\<close>

definition bucketOf :: "rarityDict \<Rightarrow> string \<Rightarrow> card list" where
  "bucketOf dict r = (case dict r of None \<Rightarrow> [] | Some b \<Rightarrow> b)"

text \<open>
  The state of the booster-data generator is its array \<open>pool\<close>, which holds cards only
  (\<open>if (card) pool.push(card)\<close>), and the random source.
\<close>

type_synonym slotState = "card list \<times> random"

definition pushCard :: "card list \<Rightarrow> slotState \<Rightarrow> slotState" where
  "pushCard bucket st =
     (if bucket \<noteq> [] then
        (case fst (pickRandom bucket (snd st)) of
           None \<Rightarrow> (fst st, snd (pickRandom bucket (snd st)))
         | Some c \<Rightarrow> (fst st @ [c], snd (pickRandom bucket (snd st))))
      else st)"

text \<open>
  The rarity of one draw of a slot with rarities. With both \<open>mythic\<close> and \<open>rare\<close> among
  them, \<open>random()\<close> is called only when there are mythics. Otherwise the rarity is
  \<open>slot.rarities[Math.floor(random() * slot.rarities.length)]\<close>, and \<open>undefined\<close> as a
  key of the object is the text \<open>undefined\<close>.
\<close>

definition chooseRarity :: "rarityDict \<Rightarrow> slot \<Rightarrow> string list \<Rightarrow> random \<Rightarrow> string \<times> random" where
  "chooseRarity dict s rs random =
     (if ''mythic'' \<in> set rs \<and> ''rare'' \<in> set rs then
        (let mythicRate = (case slot_mythicRate s of None \<Rightarrow> 1 / 8 | Some x \<Rightarrow> x);
             hasMythics = (bucketOf dict ''mythic'' \<noteq> [])
         in if hasMythics
            then (if fst (draw random) < mythicRate then ''mythic'' else ''rare'', snd (draw random))
            else (''rare'', random))
      else
        (case floorIndex (fst (draw random)) rs of
           None \<Rightarrow> (''undefined'', snd (draw random))
         | Some r \<Rightarrow> (r, snd (draw random))))"

text \<open>The body of \<open>for (let i = 0; i < count; i++)\<close> for a slot with the pool \<open>p\<close>.\<close>

definition slotDraw :: "rarityDict \<Rightarrow> card list \<Rightarrow> slot \<Rightarrow> (string \<times> string list) list \<Rightarrow> slotState \<Rightarrow> slotState" where
  "slotDraw dict inPool s p st =
     (case slot_rarities s of
        Some rs \<Rightarrow>
          (let chosen = chooseRarity dict s rs (snd st)
           in pushCard (bucketOf dict (fst chosen)) (fst st, snd chosen))
      | None \<Rightarrow> pushCard (filter (inRanges (slotRanges p)) inPool) st)"

text \<open>One slot of a pack: \<open>if (!slot.pool || !slot.count) continue\<close>, then the draws.\<close>

definition packSlot :: "rarityDict \<Rightarrow> card list \<Rightarrow> slotState \<Rightarrow> slot \<Rightarrow> slotState" where
  "packSlot dict inPool st s =
     (case slot_pool s of
        None \<Rightarrow> st
      | Some p \<Rightarrow>
          (case slot_count s of
             None \<Rightarrow> st
           | Some n \<Rightarrow> if n = 0 then st else repeatN n (slotDraw dict inPool s p) st))"

definition boosterPack :: "rarityDict \<Rightarrow> card list \<Rightarrow> slot list \<Rightarrow> slotState \<Rightarrow> slotState" where
  "boosterPack dict inPool ss st = foldl (packSlot dict inPool) st ss"

text \<open>
  \<open>generateSealedPoolFromBoosterData(setCode, cards, numPacks, seed)\<close>. The booster data
  it awaits are arguments: \<open>boosters\<close> is the object \<open>index.boosters\<close> and
  \<open>files setCode boosterType\<close> what \<open>loadBoosterFile\<close> resolves to (\<open>None\<close> is \<open>null\<close>).
  Without usable data the legacy generator runs, which makes 6 packs whatever \<open>numPacks\<close>
  is.
\<close>

definition generateSealedPoolFromBoosterData ::
  "(string \<Rightarrow> string list option) \<Rightarrow> (string \<Rightarrow> string \<Rightarrow> boosterFile option) \<Rightarrow>
   string \<Rightarrow> card list \<Rightarrow> nat \<Rightarrow> seed option \<Rightarrow> (nat \<Rightarrow> rat) \<Rightarrow> card option list" where
  "generateSealedPoolFromBoosterData boosters files setCode cards numPacks seed env =
     (case boosters setCode of
        None \<Rightarrow> generateSealedPool cards seed env
      | Some types \<Rightarrow>
          if ''play'' \<notin> set types \<and> ''draft'' \<notin> set types then generateSealedPool cards seed env
          else
            (let boosterType = (if ''play'' \<in> set types then ''play'' else ''draft'')
             in case files setCode boosterType of
                  None \<Rightarrow> generateSealedPool cards seed env
                | Some file \<Rightarrow>
                    (case slots file of
                       None \<Rightarrow> generateSealedPool cards seed env
                     | Some ss \<Rightarrow>
                         map Some
                           (fst (repeatN numPacks
                                   (boosterPack (cardsByRarityInPool cards ss)
                                      (allInPool cards ss) ss)
                                   ([], newRandom seed env))))))"

section \<open>Daily seed and daily set\<close>

text \<open>
  A \<open>Date\<close> object is invalid (its time value is NaN) or valid; a valid one is known
  here by the text that \<open>toISOString()\<close> returns for it. \<open>toISOString()\<close> throws a
  RangeError on an invalid date.
\<close>

datatype jsDate = InvalidDate | Date string

datatype jsError = RangeError string

text \<open>\<open>getDailySeed\<close>: \<open>'daily-' + date.toISOString().split('T')[0]\<close>.\<close>

definition getDailySeed :: "jsDate \<Rightarrow> jsError + string" where
  "getDailySeed date =
     (case date of
        InvalidDate \<Rightarrow> Inl (RangeError ''Invalid time value'')
      | Date isoText \<Rightarrow>
          (case splitOn (CHR ''T'') isoText of
             [] \<Rightarrow> Inr (''daily-undefined'')
           | dateStr # _ \<Rightarrow> Inr (''daily-'' @ dateStr)))"

text \<open>\<open>s.replace(pat, rep)\<close> with a text pattern: the first occurrence is replaced.\<close>

fun replaceFirst :: "string \<Rightarrow> string \<Rightarrow> string \<Rightarrow> string" where
  "replaceFirst pat rep [] = (if pat = [] then rep else [])"
| "replaceFirst pat rep (c # cs) =
     (if take (length pat) (c # cs) = pat then rep @ drop (length pat) (c # cs)
      else c # replaceFirst pat rep cs)"

text \<open>\<open>a >= b\<close> on strings: the order of the code units, a proper prefix being smaller.\<close>

fun strGe :: "string \<Rightarrow> string \<Rightarrow> bool" where
  "strGe a [] = True"
| "strGe [] (y # ys) = False"
| "strGe (x # xs) (y # ys) =
     (if (of_char y :: nat) < of_char x then True
      else if (of_char x :: nat) < of_char y then False
      else strGe xs ys)"

text \<open>\<open>hashDate\<close>: the rolling hash of \<open>hashString\<close>, then \<open>Math.abs\<close>.\<close>

definition hashDate :: "string \<Rightarrow> int" where
  "hashDate dateStr =
     \<bar>sint (foldl (\<lambda>hash c. (push_bit 5 hash - hash) + of_nat (of_char c)) (0 :: 32 word) dateStr)\<bar>"

text \<open>A set of the list \<open>sets.json\<close>; \<open>released\<close> may be missing.\<close>

record mtgSet =
  set_code :: string
  set_name :: string
  released :: "string option"

definition isRecent :: "mtgSet \<Rightarrow> bool" where
  "isRecent s =
     (case released s of
        None \<Rightarrow> False
      | Some d \<Rightarrow> d \<noteq> [] \<and> strGe d ''2020-01-01'')"

text \<open>
  \<open>pickDailySet(sets, date)\<close>. \<open>hashDate(dateStr) % recentSets.length\<close> is NaN when the
  length is 0 (\<open>None\<close>), and an array read at NaN gives \<open>undefined\<close> (\<open>None\<close>). The result
  is the thrown error, or the value returned.
\<close>

definition pickDailySet :: "mtgSet list \<Rightarrow> jsDate \<Rightarrow> jsError + mtgSet option" where
  "pickDailySet sets date =
     (case getDailySeed date of
        Inl error \<Rightarrow> Inl error
      | Inr seed \<Rightarrow>
          (let dateStr = replaceFirst ''daily-'' [] seed;
               recentSets = filter isRecent sets;
               dayIndex = (if length recentSets = 0 then None
                           else Some (hashDate dateStr mod int (length recentSets)))
           in Inr (case dayIndex of
                     None \<Rightarrow> None
                   | Some i \<Rightarrow>
                       if 0 \<le> i \<and> nat i < length recentSets then Some (recentSets ! nat i)
                       else None)))"

section \<open>Auxiliary definitions for the statements\<close>

text \<open>A card with an exclusive promo type and frame inside the play-booster ranges of a
  configuration, and a card with an exclusive frame outside both range lists of another.\<close>

definition foilInvertedCard :: card where
  "foilInvertedCard =
     \<lparr>card_id = ''c-7'', collector_number = ''7'', rarity = ''rare'',
      promo_types = Some [''surgefoil''], frame_effects = Some [''inverted''],
      booster = False\<rparr>"

definition playOnlyConfig :: setConfig where
  "playOnlyConfig = \<lparr>playBooster = Some [''300'', ''1-10''], collectorExclusive = Some [''5-8'']\<rparr>"

definition outsideCard :: card where
  "outsideCard =
     \<lparr>card_id = ''c-500'', collector_number = ''500'', rarity = ''rare'',
      promo_types = None, frame_effects = Some [''inverted''], booster = True\<rparr>"

definition bothRangesConfig :: setConfig where
  "bothRangesConfig = \<lparr>playBooster = Some [''1-10''], collectorExclusive = Some [''300-400'']\<rparr>"

text \<open>The invariant of the retry loop, for a run \<open>r\<close> that starts at iteration \<open>i\<close>
  with the pauses \<open>ps\<close> already taken.\<close>

definition loopOk :: "(nat \<Rightarrow> 'a fetched) \<Rightarrow> nat \<Rightarrow> nat \<Rightarrow> nat list \<Rightarrow> 'a retryRun \<Rightarrow> bool" where
  "loopOk net retries i ps r \<longleftrightarrow>
     calls r \<le> retries
     \<and> (\<forall>e. outcome r = Thrown e \<longrightarrow> calls r = retries)
     \<and> (\<exists>m. i + m \<le> calls r \<and> pauses r = ps @ map (pauseAfter net) [i..<i + m])"

text \<open>Two rate-limit responses, one server error, then a good response.\<close>

definition twoLimitsThenError :: "nat \<Rightarrow> nat fetched" where
  "twoLimitsThenError k =
     (if k < 2 then Response 429 (Inl ''rate limited'')
      else if k = 2 then Response 500 (Inl ''server error'')
      else Response 200 (Inr 42))"

definition alwaysLimited :: "nat \<Rightarrow> nat fetched" where
  "alwaysLimited k = Response 429 (Inl ''rate limited'')"

text \<open>Sets for the daily pick: one released before the cut-off date, one after it.\<close>

definition throneOfEldraine :: mtgSet where
  "throneOfEldraine =
     \<lparr>set_code = ''eld'', set_name = ''Throne of Eldraine'', released = Some ''2019-10-04''\<rparr>"

definition zendikarRising :: mtgSet where
  "zendikarRising =
     \<lparr>set_code = ''znr'', set_name = ''Zendikar Rising'', released = Some ''2020-09-25''\<rparr>"

definition marchFifth :: jsDate where
  "marchFifth = Date ''2024-03-05T12:00:00.000Z''"


text \<open>Every card among the entries of a pool is in \<open>S\<close>.\<close>

definition cardsFrom :: "card set \<Rightarrow> card option list \<Rightarrow> bool" where
  "cardsFrom S pool \<longleftrightarrow> (\<forall>c. Some c \<in> set pool \<longrightarrow> c \<in> S)"

text \<open>
  A random source that keeps the contract of \<open>Math.random\<close>: every number it gives is
  in the unit interval, 1 excluded. The seeded source always does.
\<close>

fun validRandom :: "random \<Rightarrow> bool" where
  "validRandom (Mulberry32 s) = True"
| "validRandom (MathRandom env) = (\<forall>n. 0 \<le> env n \<and> env n < 1)"



definition rareA :: card where
  "rareA = \<lparr>card_id = ''id-a'', collector_number = ''7'', rarity = ''rare'',
     promo_types = None, frame_effects = None, booster = True\<rparr>"

definition rareB :: card where
  "rareB = \<lparr>card_id = ''id-b'', collector_number = ''8'', rarity = ''rare'',
     promo_types = None, frame_effects = None, booster = True\<rparr>"

definition mythicM :: card where
  "mythicM = \<lparr>card_id = ''id-m'', collector_number = ''9'', rarity = ''mythic'',
     promo_types = None, frame_effects = None, booster = True\<rparr>"

text \<open>
  The rule of the rare-or-mythic draw with the threshold \<open>t\<close>, on the state \<open>st\<close> at the
  start of a pack: a mythic of the catalog is pushed when the fresh draw is below \<open>t\<close>
  and there are mythics; otherwise a rare is pushed, or nothing when there is no rare.
\<close>

definition mythicRule :: "rat \<Rightarrow> card list \<Rightarrow> genState \<Rightarrow> bool" where
  "mythicRule t cards st \<longleftrightarrow>
     (let b = groupByRarity cards;
          out = fst (rareOrMythicDraw t b st)
      in if fst (draw (snd st)) < t \<and> mythic b \<noteq> []
         then \<exists>c \<in> set cards. rarity c = ''mythic'' \<and> out = fst st @ [Some c]
         else if rare b \<noteq> []
         then \<exists>c \<in> set cards. rarity c = ''rare'' \<and> out = fst st @ [Some c]
         else out = fst st)"

text \<open>Every array of the rarity dictionary holds cards of \<open>S\<close> only.\<close>

definition dictFrom :: "card set \<Rightarrow> rarityDict \<Rightarrow> bool" where
  "dictFrom S dict \<longleftrightarrow> (\<forall>r b. dict r = Some b \<longrightarrow> set b \<subseteq> S)"

text \<open>Booster data for a set \<open>tst\<close>: a play booster with one rare slot over the collector
  numbers 1 to 10 and one slot without rarities over the collector number 7.\<close>

definition rareSlot :: slot where
  "rareSlot = \<lparr>slot_count = Some 1, slot_rarities = Some [''rare''],
     slot_mythicRate = None, slot_pool = Some [(''nonfoil'', [''1-10''])]\<rparr>"

definition wildcardSlot :: slot where
  "wildcardSlot = \<lparr>slot_count = Some 1, slot_rarities = None,
     slot_mythicRate = None, slot_pool = Some [(''foil'', [''7''])]\<rparr>"

definition testBoosters :: "string \<Rightarrow> string list option" where
  "testBoosters setCode = (if setCode = ''tst'' then Some [''play'', ''collector''] else None)"

definition testFiles :: "string \<Rightarrow> string \<Rightarrow> boosterFile option" where
  "testFiles setCode boosterType =
     (if setCode = ''tst'' \<and> boosterType = ''play''
      then Some \<lparr>slots = Some [rareSlot, wildcardSlot]\<rparr> else None)"

text \<open>
  What one call of \<open>fetch\<close> amounts to for the retry loop: a rate-limit response, a
  failure with the message of the error that the \<open>catch\<close> block receives, or a success
  with the parsed value.
\<close>

datatype 'a attempt = Limited | Failed string | Succeeded 'a

definition classify :: "'a fetched \<Rightarrow> 'a attempt" where
  "classify r =
     (case r of
        NetworkError error \<Rightarrow> Failed error
      | Response status body \<Rightarrow>
          if status = 429 then Limited
          else if \<not> response_ok status then Failed (''HTTP '' @ decimal status)
          else (case body of Inl error \<Rightarrow> Failed error | Inr json \<Rightarrow> Succeeded json))"

definition unsuccessful :: "'a fetched \<Rightarrow> bool" where
  "unsuccessful r = (case classify r of Succeeded json \<Rightarrow> False | _ \<Rightarrow> True)"

text \<open>A rate-limit response, a server error, then a good response.\<close>

definition limitErrorThenData :: "nat \<Rightarrow> nat fetched" where
  "limitErrorThenData k =
     (if k = 0 then Response 429 (Inl ''rate limited'')
      else if k = 1 then Response 500 (Inl ''server error'')
      else Response 200 (Inr 42))"

section \<open>Properties of the range matcher\<close>



lemma of_char_digit: "d < 10 \<Longrightarrow> (of_char (char_of (48 + d :: nat)) :: nat) = 48 + d"
  by simp

lemma isDigit_char_of: "d < 10 \<Longrightarrow> isDigit (char_of (48 + d :: nat))"
  by (simp add: isDigit_def)

lemma decimal_digits: "\<forall>c \<in> set (decimal n). isDigit c"
proof (induction n rule: decimal.induct)
  case (1 n)
  show ?case
  proof (cases "n < 10")
    case True
    then show ?thesis by (subst decimal.simps) (simp add: isDigit_char_of)
  next
    case False
    have "n mod 10 < 10" by simp
    then have "isDigit (char_of (48 + n mod 10))" by (rule isDigit_char_of)
    with False 1 show ?thesis by (subst decimal.simps) auto
  qed
qed

lemma decimal_ne: "decimal n \<noteq> []"
  by (subst decimal.simps) simp

lemma digitsValue_snoc: "digitsValue (ds @ [c]) = 10 * digitsValue ds + (of_char c - 48)"
  by (simp add: digitsValue_def)

lemma digitsValue_decimal: "digitsValue (decimal n) = n"
proof (induction n rule: decimal.induct)
  case (1 n)
  show ?case
  proof (cases "n < 10")
    case True
    then show ?thesis by (subst decimal.simps) (simp add: digitsValue_def)
  next
    case False
    have "n mod 10 < 10" by simp
    then have "(of_char (char_of (48 + n mod 10)) :: nat) = 48 + n mod 10"
      by (rule of_char_digit)
    with False 1 show ?thesis by (subst decimal.simps) (simp add: digitsValue_snoc)
  qed
qed

lemma isDigit_not_ws: "isDigit c \<Longrightarrow> \<not> isWhiteSpace c"
  by (auto simp: isDigit_def isWhiteSpace_def)

lemma isDigit_not_sign: "isDigit c \<Longrightarrow> c \<noteq> CHR ''-'' \<and> c \<noteq> CHR ''+''"
  by (auto simp: isDigit_def)

lemma parseInt10_digits:
  assumes "ds \<noteq> []" "\<forall>c \<in> set ds. isDigit c" "rest = [] \<or> \<not> isDigit (hd rest)"
  shows "parseInt10 (ds @ rest) = Some (int (digitsValue ds))"
proof -
  from assms obtain d ds' where ds: "ds = d # ds'" by (cases ds) auto
  with assms have d: "isDigit d" by simp
  have tw: "takeWhile isDigit (ds @ rest) = ds"
    using assms(2,3) by (cases rest) (auto simp: takeWhile_append2 takeWhile_eq_all_conv)
  have dw: "dropWhile isWhiteSpace (ds @ rest) = ds @ rest"
    using ds isDigit_not_ws[OF d] by simp
  show ?thesis
    unfolding parseInt10_def dw Let_def
    using tw isDigit_not_sign[OF d] assms(1) by (simp add: ds)
qed

lemma parseInt10_decimal_suffix:
  "rest = [] \<or> \<not> isDigit (hd rest) \<Longrightarrow> parseInt10 (decimal n @ rest) = Some (int n)"
  using parseInt10_digits[of "decimal n" rest] decimal_ne decimal_digits
  by (simp add: digitsValue_decimal)

lemma parseInt10_decimal: "parseInt10 (decimal n) = Some (int n)"
  using parseInt10_decimal_suffix[of "[]" n] by simp

lemma dash_not_decimal: "CHR ''-'' \<notin> set (decimal n)"
  using decimal_digits[of n] isDigit_not_sign by blast

lemma splitOn_ne: "splitOn d s \<noteq> []"
  by (induction s) (auto split: list.splits)

lemma splitOn_append: "d \<notin> set a \<Longrightarrow> splitOn d (a @ d # b) = a # splitOn d b"
  by (induction a) (auto split: list.splits)

lemma splitOn_nodelim: "d \<notin> set a \<Longrightarrow> splitOn d a = [a]"
  by (induction a) (auto split: list.splits)

lemma isInRange_NaN: "parseInt10 cn = None \<Longrightarrow> \<not> isInRange cn r"
  by (simp add: isInRange_def)

lemma isInRange_single:
  assumes "suffix = [] \<or> \<not> isDigit (hd suffix)"
  shows "isInRange (decimal n @ suffix) (decimal a) \<longleftrightarrow> n = a"
  using dash_not_decimal[of a]
  by (auto simp: isInRange_def parseInt10_decimal_suffix[OF assms] parseInt10_decimal)

lemma isInRange_dashed:
  assumes "suffix = [] \<or> \<not> isDigit (hd suffix)"
  shows "isInRange (decimal n @ suffix) (decimal a @ ''-'' @ decimal b) \<longleftrightarrow> a \<le> n \<and> n \<le> b"
proof -
  have sp: "splitOn (CHR ''-'') (decimal a @ CHR ''-'' # decimal b) = [decimal a, decimal b]"
    using dash_not_decimal by (simp add: splitOn_append splitOn_nodelim)
  show ?thesis
    by (simp add: isInRange_def parseInt10_decimal_suffix[OF assms] parseInt10_decimal sp)
qed

lemma isInRange_examples:
  "isInRange ''7'' ''1-10''" "\<not> isInRange ''11'' ''1-10''"
  "isInRange ''7'' ''7''" "\<not> isInRange ''abc'' ''1-10''"
  by (simp_all add: isInRange_def parseInt10_def isWhiteSpace_def isDigit_def digitsValue_def)

text \<open>
  Claim C8. \<open>isInRange\<close> reads the leading integer of the collector number and answers
  false when there is none; against a single-value range it tests equality, against a
  dashed range the inclusive bounds. The four examples of the specification hold:
  \<open>isInRange("7","1-10")\<close>, not \<open>isInRange("11","1-10")\<close>, \<open>isInRange("7","7")\<close>,
  not \<open>isInRange("abc","1-10")\<close>. Here \<open>n\<close>, \<open>a\<close>, \<open>b\<close> are natural numbers written in
  decimal and \<open>suffix\<close> is any text that does not continue the number.
\<close>

theorem isInRange_semantics:
  "isInRange ''7'' ''1-10'' \<and> \<not> isInRange ''11'' ''1-10''
   \<and> isInRange ''7'' ''7'' \<and> \<not> isInRange ''abc'' ''1-10''
   \<and> (parseInt10 cn = None \<longrightarrow> \<not> isInRange cn r)
   \<and> (suffix = [] \<or> \<not> isDigit (hd suffix) \<longrightarrow>
        parseInt10 (decimal n @ suffix) = Some (int n)
        \<and> (isInRange (decimal n @ suffix) (decimal a) \<longleftrightarrow> n = a)
        \<and> (isInRange (decimal n @ suffix) (decimal a @ ''-'' @ decimal b)
             \<longleftrightarrow> a \<le> n \<and> n \<le> b))"
  using isInRange_examples isInRange_NaN[of cn r] isInRange_single[of suffix n a]
    isInRange_dashed[of suffix n a b] parseInt10_decimal_suffix[of suffix n]
  by blast

theorem isInRange_semantics_witness:
  "parseInt10 ''abc'' = None \<and> \<not> isInRange ''abc'' ''1-10''
   \<and> \<not> isDigit (hd ''a'') \<and> parseInt10 (decimal 12 @ ''a'') = Some 12
   \<and> isInRange (decimal 12 @ ''a'') (decimal 12)
   \<and> isInRange (decimal 12 @ ''a'') (decimal 3 @ ''-'' @ decimal 12)
   \<and> \<not> isInRange (decimal 12 @ ''a'') (decimal 13 @ ''-'' @ decimal 20)"
proof -
  have h1: "parseInt10 ''abc'' = None"
    by (simp add: parseInt10_def isWhiteSpace_def isDigit_def)
  have h2: "\<not> isDigit (hd ''a'')"
    by (simp add: isDigit_def)
  show ?thesis
    using h1 h2 isInRange_semantics[of "''abc''" "''1-10''" "''a''" 12 12 12]
      isInRange_semantics[of "''abc''" "''1-10''" "''a''" 12 3 12]
      isInRange_semantics[of "''abc''" "''1-10''" "''a''" 12 13 20]
    by simp
qed

section \<open>Properties of the exclusivity classifier\<close>

text \<open>
  Claim C2. When the configuration's play-booster ranges include the card's collector
  number, \<open>isCollectorExclusive\<close> answers false, whatever promo types and frame effects
  the card carries.
\<close>

theorem play_range_overrides_generic:
  assumes "playBooster cfg = Some ranges" and "r \<in> set ranges"
    and "isInRange (collector_number c) r"
  shows "isCollectorExclusive c (Some cfg) = False"
proof -
  have "list_ex (\<lambda>range. isInRange (collector_number c) range) ranges"
    using assms(2,3) by (auto simp: list_ex_iff)
  then have "isInPlayBooster c (Some cfg) = Some True"
    using assms(1) by (simp add: isInPlayBooster_def)
  then show ?thesis
    by (simp add: isCollectorExclusive_def)
qed

theorem play_range_overrides_generic_witness:
  "playBooster playOnlyConfig = Some [''300'', ''1-10'']
   \<and> ''1-10'' \<in> set [''300'', ''1-10'']
   \<and> isInRange (collector_number foilInvertedCard) ''1-10''
   \<and> genericExclusive foilInvertedCard
   \<and> isCollectorExclusive foilInvertedCard (Some playOnlyConfig) = False"
proof -
  have h1: "playBooster playOnlyConfig = Some [''300'', ''1-10'']"
    by (simp add: playOnlyConfig_def)
  have h2: "''1-10'' \<in> set [''300'', ''1-10'']"
    by simp
  have h3: "isInRange (collector_number foilInvertedCard) ''1-10''"
    by (simp add: foilInvertedCard_def isInRange_examples)
  have h4: "genericExclusive foilInvertedCard"
    by (simp add: genericExclusive_def foilInvertedCard_def COLLECTOR_EXCLUSIVE_PROMOS_def
        COLLECTOR_EXCLUSIVE_FRAMES_def)
  show ?thesis
    using h1 h2 h3 h4 play_range_overrides_generic[OF h1 h2 h3] by simp
qed

text \<open>
  Claim C6, as the specification states it: the generic rule is consulted only when the
  configuration is silent, never when it answered false. The code does otherwise. For a
  card outside the play-booster ranges and outside the present collector-exclusive
  ranges the configuration answers false, and the result is still that of the generic
  rule: the same card with and without the inverted frame gets two different answers.
\<close>

lemma isInRange_500:
  "\<not> isInRange ''500'' ''1-10''" "\<not> isInRange ''500'' ''300-400''"
  by (simp_all add: isInRange_def parseInt10_def isWhiteSpace_def isDigit_def digitsValue_def)

theorem fallthrough_on_false_counterexample:
  "isInPlayBooster outsideCard (Some bothRangesConfig) = Some False
   \<and> isCollectorExclusiveByConfig outsideCard (Some bothRangesConfig) = Some False
   \<and> isCollectorExclusive outsideCard (Some bothRangesConfig) = True
   \<and> isCollectorExclusive (outsideCard\<lparr>frame_effects := None\<rparr>) (Some bothRangesConfig) = False"
  by (simp add: isCollectorExclusive_def isInPlayBooster_def isCollectorExclusiveByConfig_def
      outsideCard_def bothRangesConfig_def isInRange_500 genericExclusive_def
      COLLECTOR_EXCLUSIVE_FRAMES_def)

text \<open>
  Claim C6, amended. \<open>isCollectorExclusive\<close> consults the configuration first and the
  configuration decides only positively: the answer is false when the play-booster
  ranges include the card, and true when the play-booster ranges are present without
  the card and the collector-exclusive ranges include it. In every other case, also
  when the collector-exclusive ranges are present and do not include the card (the
  configuration answered false), the answer is that of the generic promo and frame rule.
\<close>

theorem isCollectorExclusive_decision_table:
  "isCollectorExclusive c cfg =
     (case cfg of
        None \<Rightarrow> genericExclusive c
      | Some sc \<Rightarrow>
          (case playBooster sc of
             None \<Rightarrow> genericExclusive c
           | Some pr \<Rightarrow>
               if \<exists>r \<in> set pr. isInRange (collector_number c) r then False
               else (case collectorExclusive sc of
                       None \<Rightarrow> genericExclusive c
                     | Some cr \<Rightarrow>
                         (\<exists>r \<in> set cr. isInRange (collector_number c) r)
                         \<or> genericExclusive c)))"
  by (auto simp: isCollectorExclusive_def isInPlayBooster_def isCollectorExclusiveByConfig_def
      list_ex_iff split: option.splits)

theorem isCollectorExclusive_decision_table_witness:
  "\<not> (\<exists>r \<in> set [''1-10'']. isInRange (collector_number outsideCard) r)
   \<and> \<not> (\<exists>r \<in> set [''300-400'']. isInRange (collector_number outsideCard) r)
   \<and> isCollectorExclusive outsideCard (Some bothRangesConfig) = genericExclusive outsideCard"
proof -
  have h1: "\<not> (\<exists>r \<in> set [''1-10'']. isInRange (collector_number outsideCard) r)"
    by (simp add: outsideCard_def isInRange_500)
  have h2: "\<not> (\<exists>r \<in> set [''300-400'']. isInRange (collector_number outsideCard) r)"
    by (simp add: outsideCard_def isInRange_500)
  have "isCollectorExclusive outsideCard (Some bothRangesConfig) = genericExclusive outsideCard"
    using h1 h2 isCollectorExclusive_decision_table[of outsideCard "Some bothRangesConfig"]
    by (simp add: bothRangesConfig_def)
  with h1 h2 show ?thesis by simp
qed

section \<open>Properties of the retry loop\<close>

lemma loopOk_step:
  assumes "loopOk net retries (Suc i) (ps @ [pauseAfter net i]) r"
  shows "loopOk net retries i ps r"
proof -
  from assms obtain m where c: "calls r \<le> retries"
    and t: "\<forall>e. outcome r = Thrown e \<longrightarrow> calls r = retries"
    and m: "Suc i + m \<le> calls r"
    and p: "pauses r = (ps @ [pauseAfter net i]) @ map (pauseAfter net) [Suc i..<Suc i + m]"
    by (auto simp: loopOk_def)
  have "[i..<i + Suc m] = i # [Suc i..<Suc i + m]"
    by (simp add: upt_conv_Cons)
  with p have "pauses r = ps @ map (pauseAfter net) [i..<i + Suc m]" by simp
  moreover from m have "i + Suc m \<le> calls r" by simp
  ultimately show ?thesis using c t unfolding loopOk_def by blast
qed

lemma loopOk_stop:
  assumes "calls r \<le> retries" "i \<le> calls r" "pauses r = ps"
    and "\<forall>e. outcome r = Thrown e \<longrightarrow> calls r = retries"
  shows "loopOk net retries i ps r"
  unfolding loopOk_def using assms by (intro conjI exI[of _ 0]) auto

lemma pauseAfter_rate: "net i = Response 429 b \<Longrightarrow> pauseAfter net i = 1000"
  by (simp add: pauseAfter_def rateLimited_def)

lemma pauseAfter_err: "net i = NetworkError e \<Longrightarrow> pauseAfter net i = 100 * (i + 1)"
  by (simp add: pauseAfter_def rateLimited_def)

lemma pauseAfter_resp:
  "net i = Response st b \<Longrightarrow> st \<noteq> 429 \<Longrightarrow> pauseAfter net i = 100 * (i + 1)"
  by (simp add: pauseAfter_def rateLimited_def)

lemma fetchLoop_ok:
  "i \<le> retries \<Longrightarrow> loopOk net retries i ps (fetchLoop net retries i i ps)"
proof (induction "retries - i" arbitrary: i ps)
  case 0
  then have "i = retries" by simp
  then show ?case
    by (subst fetchLoop.simps) (simp add: loopOk_stop)
next
  case (Suc n)
  then have lt: "i < retries" and n: "n = retries - Suc i" and le: "Suc i \<le> retries"
    by auto
  have IH: "\<And>qs. loopOk net retries (Suc i) qs (fetchLoop net retries (Suc i) (Suc i) qs)"
    using Suc.hyps(1)[OF n le] .
  have cont: "loopOk net retries i ps
                (fetchLoop net retries (Suc i) (Suc i) (ps @ [pauseAfter net i]))"
    by (rule loopOk_step) (rule IH)
  show ?case
  proof (cases "net i")
    case (NetworkError e)
    then show ?thesis
      using lt cont pauseAfter_err[of net i e]
      by (subst fetchLoop.simps) (auto simp: loopOk_stop)
  next
    case (Response st b)
    show ?thesis
    proof (cases "st = 429")
      case True
      then show ?thesis
        using lt cont Response pauseAfter_rate[of net i b]
        by (subst fetchLoop.simps) (auto simp: loopOk_stop)
    next
      case False
      then show ?thesis
        using lt cont Response pauseAfter_resp[of net i st b]
        by (subst fetchLoop.simps) (auto simp: loopOk_stop split: sum.splits)
    qed
  qed
qed

lemma fetchLoop_all_rate:
  "i \<le> retries \<Longrightarrow> \<forall>k. i \<le> k \<and> k < retries \<longrightarrow> rateLimited (net k) \<Longrightarrow>
   fetchLoop net retries i i ps =
     \<lparr>outcome = ReturnedUndefined, calls = retries,
      pauses = ps @ replicate (retries - i) 1000\<rparr>"
proof (induction "retries - i" arbitrary: i ps)
  case 0
  then have "i = retries" by simp
  then show ?case by (subst fetchLoop.simps) simp
next
  case (Suc n)
  then have lt: "i < retries" and n: "n = retries - Suc i" and le: "Suc i \<le> retries"
    by auto
  have all: "\<forall>k. Suc i \<le> k \<and> k < retries \<longrightarrow> rateLimited (net k)"
    using Suc.prems(2) by auto
  have IH: "fetchLoop net retries (Suc i) (Suc i) (ps @ [1000]) =
     \<lparr>outcome = ReturnedUndefined, calls = retries,
      pauses = (ps @ [1000]) @ replicate (retries - Suc i) 1000\<rparr>"
    using Suc.hyps(1)[OF n le all] .
  from Suc.prems(2) lt have "rateLimited (net i)" by simp
  then obtain b where r: "net i = Response 429 b"
    by (auto simp: rateLimited_def split: fetched.splits)
  have rep: "replicate (retries - i) (1000::nat) = 1000 # replicate (retries - Suc i) 1000"
    using lt by (simp add: Suc_diff_Suc flip: replicate_Suc)
  show ?case
    using lt r IH rep by (subst fetchLoop.simps) simp
qed

lemma rateLimited_classify: "rateLimited r \<longleftrightarrow> classify r = Limited"
  by (auto simp: rateLimited_def classify_def split: fetched.splits sum.splits)

lemma step_success:
  "i < retries \<Longrightarrow> classify (net k) = Succeeded v \<Longrightarrow>
     fetchLoop net retries i k ps = \<lparr>outcome = Returned v, calls = Suc k, pauses = ps\<rparr>"
  by (subst fetchLoop.simps)
     (auto simp: classify_def Let_def split: fetched.splits sum.splits if_splits)

lemma step_thrown:
  "Suc i = retries \<Longrightarrow> classify (net k) = Failed e \<Longrightarrow>
     fetchLoop net retries i k ps = \<lparr>outcome = Thrown e, calls = Suc k, pauses = ps\<rparr>"
  by (subst fetchLoop.simps)
     (auto simp: classify_def Let_def split: fetched.splits sum.splits if_splits)

lemma step_end:
  "\<not> i < retries \<Longrightarrow>
     fetchLoop net retries i k ps = \<lparr>outcome = ReturnedUndefined, calls = k, pauses = ps\<rparr>"
  by (subst fetchLoop.simps) simp

lemma step_limited:
  "i < retries \<Longrightarrow> classify (net k) = Limited \<Longrightarrow>
     fetchLoop net retries i k ps = fetchLoop net retries (Suc i) (Suc k) (ps @ [1000])"
  by (subst fetchLoop.simps)
     (auto simp: classify_def Let_def split: fetched.splits sum.splits if_splits)

lemma step_failed:
  "Suc i < retries \<Longrightarrow> classify (net k) = Failed e \<Longrightarrow>
     fetchLoop net retries i k ps = fetchLoop net retries (Suc i) (Suc k) (ps @ [100 * (i + 1)])"
  by (subst fetchLoop.simps)
     (auto simp: classify_def Let_def split: fetched.splits sum.splits if_splits)

lemma step_unsuccessful:
  assumes "Suc i < retries" "unsuccessful (net i)"
  shows "fetchLoop net retries i i ps
           = fetchLoop net retries (Suc i) (Suc i) (ps @ [pauseAfter net i])"
proof (cases "classify (net i)")
  case Limited
  then show ?thesis
    using assms(1) step_limited[of i retries net i ps]
    by (simp add: pauseAfter_def rateLimited_classify)
next
  case (Failed e)
  then show ?thesis
    using assms(1) step_failed[of i retries net i e ps]
    by (simp add: pauseAfter_def rateLimited_classify)
next
  case (Succeeded v)
  then show ?thesis using assms(2) by (simp add: unsuccessful_def)
qed

lemma upt_head: "i < k \<Longrightarrow> [i..<k] = i # [Suc i..<k]"
  by (simp add: upt_conv_Cons)

lemma run_success:
  "i \<le> k \<Longrightarrow> k < retries \<Longrightarrow> \<forall>j. i \<le> j \<and> j < k \<longrightarrow> unsuccessful (net j) \<Longrightarrow>
   classify (net k) = Succeeded v \<Longrightarrow>
   fetchLoop net retries i i ps =
     \<lparr>outcome = Returned v, calls = Suc k, pauses = ps @ map (pauseAfter net) [i..<k]\<rparr>"
proof (induction "k - i" arbitrary: i ps)
  case 0
  then have "i = k" by simp
  with 0 show ?case by (simp add: step_success)
next
  case (Suc n)
  then have lt: "i < k" and n: "n = k - Suc i" and le: "Suc i \<le> k" by auto
  have u: "unsuccessful (net i)" using Suc.prems(3) lt by simp
  have all: "\<forall>j. Suc i \<le> j \<and> j < k \<longrightarrow> unsuccessful (net j)" using Suc.prems(3) by simp
  have "fetchLoop net retries i i ps
          = fetchLoop net retries (Suc i) (Suc i) (ps @ [pauseAfter net i])"
    using lt Suc.prems(2) u by (intro step_unsuccessful[of i retries net ps]) auto
  also have "\<dots> = \<lparr>outcome = Returned v, calls = Suc k,
                     pauses = (ps @ [pauseAfter net i]) @ map (pauseAfter net) [Suc i..<k]\<rparr>"
    by (rule Suc.hyps(1)[OF n le Suc.prems(2) all Suc.prems(4)])
  finally show ?case using lt by (simp add: upt_head)
qed

lemma run_thrown:
  "i < retries \<Longrightarrow> \<forall>j. i \<le> j \<and> j < retries \<longrightarrow> unsuccessful (net j) \<Longrightarrow>
   classify (net (retries - 1)) = Failed e \<Longrightarrow>
   fetchLoop net retries i i ps =
     \<lparr>outcome = Thrown e, calls = retries,
      pauses = ps @ map (pauseAfter net) [i..<retries - 1]\<rparr>"
proof (induction "retries - i" arbitrary: i ps)
  case 0
  then show ?case by simp
next
  case (Suc n)
  show ?case
  proof (cases "Suc i = retries")
    case True
    then have "retries - 1 = i" by simp
    with Suc.prems(3) True show ?thesis
      using step_thrown[of i retries net i e ps] by simp
  next
    case False
    with Suc.prems(1) have lt: "Suc i < retries" by simp
    have n: "n = retries - Suc i" using Suc.hyps(2) by simp
    have u: "unsuccessful (net i)" using Suc.prems(1,2) by simp
    have all: "\<forall>j. Suc i \<le> j \<and> j < retries \<longrightarrow> unsuccessful (net j)"
      using Suc.prems(2) by simp
    have "fetchLoop net retries i i ps
            = fetchLoop net retries (Suc i) (Suc i) (ps @ [pauseAfter net i])"
      using lt u by (rule step_unsuccessful[of i retries net ps])
    also have "\<dots> = \<lparr>outcome = Thrown e, calls = retries,
         pauses = (ps @ [pauseAfter net i]) @ map (pauseAfter net) [Suc i..<retries - 1]\<rparr>"
      by (rule Suc.hyps(1)[OF n lt all Suc.prems(3)])
    finally show ?thesis using lt by (simp add: upt_head)
  qed
qed

lemma run_undefined:
  "i \<le> retries \<Longrightarrow> \<forall>j. i \<le> j \<and> j < retries \<longrightarrow> unsuccessful (net j) \<Longrightarrow>
   i = retries \<or> classify (net (retries - 1)) = Limited \<Longrightarrow>
   fetchLoop net retries i i ps =
     \<lparr>outcome = ReturnedUndefined, calls = retries,
      pauses = ps @ map (pauseAfter net) [i..<retries]\<rparr>"
proof (induction "retries - i" arbitrary: i ps)
  case 0
  then have "i = retries" by simp
  then show ?case by (simp add: step_end)
next
  case (Suc n)
  then have lt: "i < retries" and n: "n = retries - Suc i" and le: "Suc i \<le> retries" by auto
  from Suc.prems(3) lt have last: "classify (net (retries - 1)) = Limited" by simp
  have all: "\<forall>j. Suc i \<le> j \<and> j < retries \<longrightarrow> unsuccessful (net j)"
    using Suc.prems(2) by simp
  have IH: "fetchLoop net retries (Suc i) (Suc i) qs =
     \<lparr>outcome = ReturnedUndefined, calls = retries,
      pauses = qs @ map (pauseAfter net) [Suc i..<retries]\<rparr>" for qs
    using Suc.hyps(1)[OF n le all] last by simp
  have "fetchLoop net retries i i ps
          = fetchLoop net retries (Suc i) (Suc i) (ps @ [pauseAfter net i])"
  proof (cases "Suc i = retries")
    case True
    then have "classify (net i) = Limited" using last by auto
    then show ?thesis
      using step_limited[of i retries net i ps] lt by (simp add: pauseAfter_def rateLimited_classify)
  next
    case False
    with lt have "Suc i < retries" by simp
    moreover have "unsuccessful (net i)" using Suc.prems(2) lt by simp
    ultimately show ?thesis by (rule step_unsuccessful[of i retries net ps])
  qed
  then show ?case using IH lt by (simp add: upt_head)
qed

lemma decimal_500: "decimal 500 = ''500''"
  by code_simp

lemma run_twoLimitsThenError:
  "fetchWithRetry twoLimitsThenError 3 =
     \<lparr>outcome = Thrown ''HTTP 500'', calls = 3, pauses = [1000, 1000]\<rparr>"
  by (simp add: fetchWithRetry_def fetchLoop.simps twoLimitsThenError_def response_ok_def
      decimal_500 numeral_3_eq_3)

text \<open>
  Claim C3, as the specification states it: a 429 response is retried without consuming
  one of the 3 attempts, and only generic errors count toward exhaustion. The code
  counts every response. After two 429 responses the third call is the last one: its
  server error, the only generic error of the run, is thrown at once and the good
  response that a further call would get is never asked for.
\<close>

theorem rate_limit_consumes_attempt_counterexample:
  "rateLimited (twoLimitsThenError 0) \<and> rateLimited (twoLimitsThenError 1)
   \<and> twoLimitsThenError 3 = Response 200 (Inr 42)
   \<and> outcome (fetchWithRetry twoLimitsThenError 3) = Thrown ''HTTP 500''
   \<and> calls (fetchWithRetry twoLimitsThenError 3) = 3"
  by (simp add: run_twoLimitsThenError) (simp add: twoLimitsThenError_def rateLimited_def)

lemma run_limitErrorThenData_classes:
  "unsuccessful (limitErrorThenData 0)" "unsuccessful (limitErrorThenData 1)"
  "rateLimited (limitErrorThenData 0)" "\<not> rateLimited (limitErrorThenData 1)"
  "classify (limitErrorThenData 2) = Succeeded 42"
  by (simp_all add: limitErrorThenData_def unsuccessful_def classify_def rateLimited_def
      response_ok_def)

lemma run_twoLimitsThenError_classes:
  "unsuccessful (twoLimitsThenError 0)" "unsuccessful (twoLimitsThenError 1)"
  "unsuccessful (twoLimitsThenError 2)"
  "rateLimited (twoLimitsThenError 0)" "rateLimited (twoLimitsThenError 1)"
  "classify (twoLimitsThenError 2) = Failed ''HTTP 500''"
  by (simp_all add: twoLimitsThenError_def unsuccessful_def classify_def rateLimited_def
      response_ok_def decimal_500)

lemma upt_two: "[0..<2] = [0, 1]"
  by (simp add: numeral_2_eq_2)

text \<open>
  Claim C3, amended. Every iteration of the loop makes one call of \<open>fetch\<close> and every
  response that is not a success, a 429 as well as a generic error, consumes one of the
  \<open>retries\<close> iterations: for every sequence of responses the loop makes at most
  \<open>retries\<close> calls. A 429 response is followed by a fixed pause of 1000 ms and the next
  iteration; a generic error at the \<open>k\<close>-th call (from 0, 429 responses counted) is
  followed by a pause of \<open>100 * (k + 1)\<close> ms and the next iteration, and it is thrown
  only at the last of the \<open>retries\<close> calls. So the run is fixed by the responses: it
  returns the data of the first success among the first \<open>retries\<close> calls, after the
  pauses of all calls before it; without one it throws the error of the last call, after
  the pauses of the calls before the last, or, when the last call got a 429, it leaves
  the loop after the pauses of all \<open>retries\<close> calls.
\<close>

theorem fetchWithRetry_accounting:
  "(k < retries \<and> (\<forall>j < k. unsuccessful (net j)) \<and> classify (net k) = Succeeded v \<longrightarrow>
      fetchWithRetry net retries =
        \<lparr>outcome = Returned v, calls = Suc k,
         pauses = map (\<lambda>j. if rateLimited (net j) then 1000 else 100 * (j + 1)) [0..<k]\<rparr>)
   \<and> (0 < retries \<and> (\<forall>j < retries. unsuccessful (net j))
        \<and> classify (net (retries - 1)) = Failed e \<longrightarrow>
      fetchWithRetry net retries =
        \<lparr>outcome = Thrown e, calls = retries,
         pauses = map (\<lambda>j. if rateLimited (net j) then 1000 else 100 * (j + 1))
                    [0..<retries - 1]\<rparr>)
   \<and> ((\<forall>j < retries. unsuccessful (net j))
        \<and> (retries = 0 \<or> classify (net (retries - 1)) = Limited) \<longrightarrow>
      fetchWithRetry net retries =
        \<lparr>outcome = ReturnedUndefined, calls = retries,
         pauses = map (\<lambda>j. if rateLimited (net j) then 1000 else 100 * (j + 1))
                    [0..<retries]\<rparr>)
   \<and> calls (fetchWithRetry net retries) \<le> retries
   \<and> length (pauses (fetchWithRetry net retries)) \<le> calls (fetchWithRetry net retries)
   \<and> (\<forall>k < length (pauses (fetchWithRetry net retries)).
         pauses (fetchWithRetry net retries) ! k
           = (if rateLimited (net k) then 1000 else 100 * (k + 1)))
   \<and> (\<forall>e. outcome (fetchWithRetry net retries) = Thrown e
         \<longrightarrow> calls (fetchWithRetry net retries) = retries)"
proof -
  have pa: "pauseAfter net = (\<lambda>j. if rateLimited (net j) then 1000 else 100 * (j + 1))"
    by (rule ext) (simp add: pauseAfter_def)
  have success: "fetchWithRetry net retries =
        \<lparr>outcome = Returned v, calls = Suc k, pauses = map (pauseAfter net) [0..<k]\<rparr>"
    if "k < retries" "\<forall>j < k. unsuccessful (net j)" "classify (net k) = Succeeded v"
    using run_success[of 0 k retries net v "[]"] that by (simp add: fetchWithRetry_def)
  have thrown: "fetchWithRetry net retries =
        \<lparr>outcome = Thrown e, calls = retries,
         pauses = map (pauseAfter net) [0..<retries - 1]\<rparr>"
    if "0 < retries" "\<forall>j < retries. unsuccessful (net j)"
      "classify (net (retries - 1)) = Failed e"
    using run_thrown[of 0 retries net e "[]"] that by (simp add: fetchWithRetry_def)
  have undefined: "fetchWithRetry net retries =
        \<lparr>outcome = ReturnedUndefined, calls = retries,
         pauses = map (pauseAfter net) [0..<retries]\<rparr>"
    if "\<forall>j < retries. unsuccessful (net j)"
      "retries = 0 \<or> classify (net (retries - 1)) = Limited"
    using run_undefined[of 0 retries net "[]"] that by (auto simp: fetchWithRetry_def)
  have "loopOk net retries 0 [] (fetchWithRetry net retries)"
    unfolding fetchWithRetry_def by (rule fetchLoop_ok) simp
  then obtain m where c: "calls (fetchWithRetry net retries) \<le> retries"
    and t: "\<forall>e. outcome (fetchWithRetry net retries) = Thrown e
              \<longrightarrow> calls (fetchWithRetry net retries) = retries"
    and m: "m \<le> calls (fetchWithRetry net retries)"
    and p: "pauses (fetchWithRetry net retries) = map (pauseAfter net) [0..<m]"
    by (auto simp: loopOk_def)
  from p have len: "length (pauses (fetchWithRetry net retries)) = m" by simp
  have "\<forall>k < m. pauses (fetchWithRetry net retries) ! k = pauseAfter net k"
    by (simp add: p)
  then have old: "\<forall>k < length (pauses (fetchWithRetry net retries)).
         pauses (fetchWithRetry net retries) ! k
           = (if rateLimited (net k) then 1000 else 100 * (k + 1))"
    using len by (simp add: pauseAfter_def)
  from success thrown undefined c t m len old show ?thesis
    unfolding pa by blast
qed

theorem fetchWithRetry_accounting_witness:
  "unsuccessful (limitErrorThenData 0) \<and> unsuccessful (limitErrorThenData 1)
   \<and> classify (limitErrorThenData 2) = Succeeded 42
   \<and> fetchWithRetry limitErrorThenData 3 =
       \<lparr>outcome = Returned 42, calls = 3, pauses = [1000, 200]\<rparr>
   \<and> unsuccessful (twoLimitsThenError 0) \<and> unsuccessful (twoLimitsThenError 1)
   \<and> unsuccessful (twoLimitsThenError 2)
   \<and> classify (twoLimitsThenError 2) = Failed ''HTTP 500''
   \<and> fetchWithRetry twoLimitsThenError 3 =
       \<lparr>outcome = Thrown ''HTTP 500'', calls = 3, pauses = [1000, 1000]\<rparr>"
proof -
  have ua: "\<forall>j < 2. unsuccessful (limitErrorThenData j)"
    by (auto simp: limitErrorThenData_def unsuccessful_def classify_def response_ok_def)
  have a: "(2::nat) < 3 \<and> (\<forall>j < 2. unsuccessful (limitErrorThenData j))
           \<and> classify (limitErrorThenData 2) = Succeeded 42"
    using ua run_limitErrorThenData_classes by simp
  have ub: "\<forall>j < 3. unsuccessful (twoLimitsThenError j)"
    by (auto simp: twoLimitsThenError_def unsuccessful_def classify_def response_ok_def
        decimal_500)
  have b: "(0::nat) < 3 \<and> (\<forall>j < 3. unsuccessful (twoLimitsThenError j))
           \<and> classify (twoLimitsThenError (3 - 1)) = Failed ''HTTP 500''"
    using ub run_twoLimitsThenError_classes by simp
  have "fetchWithRetry limitErrorThenData 3 =
       \<lparr>outcome = Returned 42, calls = 3, pauses = [1000, 200]\<rparr>"
    using fetchWithRetry_accounting[of 2 3 limitErrorThenData 42] a
      run_limitErrorThenData_classes
    by (simp add: upt_two)
  moreover have "fetchWithRetry twoLimitsThenError 3 =
       \<lparr>outcome = Thrown ''HTTP 500'', calls = 3, pauses = [1000, 1000]\<rparr>"
    using fetchWithRetry_accounting[of _ 3 twoLimitsThenError _ "''HTTP 500''"] b
      run_twoLimitsThenError_classes
    by (simp add: upt_two)
  ultimately show ?thesis
    using run_limitErrorThenData_classes run_twoLimitsThenError_classes by simp
qed

text \<open>
  Claim C10. When every one of the \<open>retries\<close> calls gets a 429 response, the loop ends
  normally and \<open>fetchWithRetry\<close> returns \<open>undefined\<close>: no value and no thrown error,
  after \<open>retries\<close> calls and as many pauses of 1000 ms.
\<close>

theorem persistent_rate_limit_returns_undefined:
  assumes "\<forall>k < retries. rateLimited (net k)"
  shows "fetchWithRetry net retries =
           \<lparr>outcome = ReturnedUndefined, calls = retries, pauses = replicate retries 1000\<rparr>"
  using fetchLoop_all_rate[of 0 retries net "[]"] assms
  by (simp add: fetchWithRetry_def)

theorem persistent_rate_limit_returns_undefined_witness:
  "rateLimited (alwaysLimited 0) \<and> rateLimited (alwaysLimited 1) \<and> rateLimited (alwaysLimited 2)
   \<and> fetchWithRetry alwaysLimited 3 =
       \<lparr>outcome = ReturnedUndefined, calls = 3, pauses = [1000, 1000, 1000]\<rparr>"
proof -
  have r: "rateLimited (alwaysLimited k)" for k
    by (simp add: alwaysLimited_def rateLimited_def)
  then have h: "\<forall>k < 3. rateLimited (alwaysLimited k)"
    by simp
  from persistent_rate_limit_returns_undefined[OF h] r show ?thesis
    by (simp add: numeral_3_eq_3)
qed

section \<open>Properties of the daily set\<close>

lemma splitOn_head: "splitOn d s = takeWhile (\<lambda>c. c \<noteq> d) s # tl (splitOn d s)"
  by (induction s) (auto split: list.splits)

lemma replaceFirst_prefix: "pat \<noteq> [] \<Longrightarrow> replaceFirst pat rep (pat @ s) = rep @ s"
  by (cases pat) auto

lemma getDailySeed_valid:
  "getDailySeed (Date isoText) = Inr (''daily-'' @ takeWhile (\<lambda>c. c \<noteq> CHR ''T'') isoText)"
  unfolding getDailySeed_def by (subst splitOn_head) simp

lemma pickDailySet_Date:
  "pickDailySet sets (Date isoText) =
     Inr (if filter isRecent sets = [] then None
          else Some (filter isRecent sets !
                 nat (hashDate (takeWhile (\<lambda>c. c \<noteq> CHR ''T'') isoText)
                        mod int (length (filter isRecent sets)))))"
proof -
  have r: "replaceFirst ''daily-'' [] (''daily-'' @ s) = s" for s
    using replaceFirst_prefix[of "''daily-''" "[]" s] by simp
  have b: "0 \<le> h mod int n \<and> nat (h mod int n) < n" if "n \<noteq> 0" for h n
    using that by (simp add: nat_less_iff)
  show ?thesis
    unfolding pickDailySet_def getDailySeed_valid sum.case r
    using b[of "length (filter isRecent sets)"]
    by (simp add: Let_def)
qed

lemma hashDate_example: "hashDate ''2024-03-05'' = 613282046"
  by (simp add: hashDate_def)

lemma isRecent_fixtures: "\<not> isRecent throneOfEldraine" "isRecent zendikarRising"
  by (simp_all add: isRecent_def throneOfEldraine_def zendikarRising_def)

text \<open>
  Claim C4, as the specification states it: \<open>pickDailySet\<close> throws when no set survives
  the release-date filter. The code has no check and JavaScript's \<open>%\<close> does not throw:
  with only a set of 2019 in the list, the call returns \<open>undefined\<close>.
\<close>

theorem pickDailySet_no_candidate_counterexample:
  "filter isRecent [throneOfEldraine] = []
   \<and> pickDailySet [throneOfEldraine] marchFifth = Inr None"
  by (simp add: marchFifth_def pickDailySet_Date isRecent_fixtures)

text \<open>
  Claim C4, amended. For a valid date \<open>pickDailySet\<close> never throws and its result is
  fixed by the list and the date's day: with the sets released on or after 2020-01-01
  as candidates, it is the candidate at index \<open>hashDate(day) mod count\<close>, an element of
  the list, and it is \<open>undefined\<close> exactly when there is no candidate.
\<close>

theorem pickDailySet_selection:
  "pickDailySet sets (Date isoText) =
     Inr (if filter isRecent sets = [] then None
          else Some (filter isRecent sets !
                 nat (hashDate (takeWhile (\<lambda>c. c \<noteq> CHR ''T'') isoText)
                        mod int (length (filter isRecent sets)))))
   \<and> (pickDailySet sets (Date isoText) = Inr None \<longleftrightarrow> filter isRecent sets = [])
   \<and> (\<forall>s. pickDailySet sets (Date isoText) = Inr (Some s) \<longrightarrow> s \<in> set sets \<and> isRecent s)"
proof -
  let ?recent = "filter isRecent sets"
  let ?i = "nat (hashDate (takeWhile (\<lambda>c. c \<noteq> CHR ''T'') isoText) mod int (length ?recent))"
  have "?recent ! ?i \<in> set ?recent" if "?recent \<noteq> []"
    using that by (intro nth_mem) (simp add: nat_less_iff)
  then have "?recent \<noteq> [] \<Longrightarrow> ?recent ! ?i \<in> set sets \<and> isRecent (?recent ! ?i)"
    by auto
  then show ?thesis
    by (auto simp: pickDailySet_Date)
qed

theorem pickDailySet_selection_witness:
  "pickDailySet [throneOfEldraine, zendikarRising] marchFifth = Inr (Some zendikarRising)
   \<and> zendikarRising \<in> set [throneOfEldraine, zendikarRising] \<and> isRecent zendikarRising"
proof -
  have h: "pickDailySet [throneOfEldraine, zendikarRising] (Date ''2024-03-05T12:00:00.000Z'')
             = Inr (Some zendikarRising)"
    by (simp add: pickDailySet_Date isRecent_fixtures)
  from pickDailySet_selection[of "[throneOfEldraine, zendikarRising]" "''2024-03-05T12:00:00.000Z''"] h
  show ?thesis
    by (simp add: marchFifth_def)
qed

section \<open>Properties of the random sources and the legacy generator\<close>

text \<open>The hash of a seed text and the first call of the generator it seeds.\<close>

lemma hashString_seed_A: "hashString ''seed-A'' = 3388734437"
  by (simp add: hashString_def)

lemma mulberry32_seed_A:
  "mulberry32 (hashString ''seed-A'') = (3912971365 / 4294967296, 925332954)"
  by (simp add: hashString_seed_A mulberry32_def Let_def)

lemma unit_of_word:
  "0 \<le> (of_nat (unat (w :: 32 word)) :: rat) / 4294967296
   \<and> (of_nat (unat w) :: rat) / 4294967296 < 1"
proof -
  have "unat w < 4294967296"
    using unsigned_less[of w, where 'a=nat] by simp
  then have "(of_nat (unat w) :: rat) < of_nat 4294967296"
    by (simp only: of_nat_less_iff)
  then have "(of_nat (unat w) :: rat) < 4294967296"
    by simp
  moreover have "0 \<le> (of_nat (unat w) :: rat)"
    by (rule of_nat_0_le_iff)
  ultimately show ?thesis
    by (simp only: divide_nonneg_nonneg) simp
qed

lemma mulberry32_unit: "0 \<le> fst (mulberry32 s) \<and> fst (mulberry32 s) < 1"
  unfolding mulberry32_def Let_def fst_conv by (rule unit_of_word)

lemma draw_valid:
  "validRandom random \<Longrightarrow>
     0 \<le> fst (draw random) \<and> fst (draw random) < 1 \<and> validRandom (snd (draw random))"
  using mulberry32_unit by (cases random) auto

lemma floorIndex_mem: "floorIndex r arr = Some x \<Longrightarrow> x \<in> set arr"
  by (auto simp: floorIndex_def Let_def split: if_splits)

lemma floorIndex_unit:
  assumes "0 \<le> r" "r < 1" "arr \<noteq> []"
  shows "\<exists>x \<in> set arr. floorIndex r arr = Some x"
proof -
  let ?n = "length arr"
  have n: "0 < ?n" using assms(3) by simp
  have lo: "0 \<le> \<lfloor>r * of_nat ?n\<rfloor>"
    using assms(1) by simp
  have "r * of_nat ?n < of_nat ?n"
    using assms(2) n by simp
  then have "\<lfloor>r * of_nat ?n\<rfloor> < int ?n"
    by (simp add: floor_less_iff)
  then have hi: "nat \<lfloor>r * of_nat ?n\<rfloor> < ?n"
    using lo by linarith
  show ?thesis
    using lo hi by (auto simp: floorIndex_def Let_def)
qed

lemma pickRandom_mem: "fst (pickRandom arr random) = Some x \<Longrightarrow> x \<in> set arr"
  by (simp add: pickRandom_def floorIndex_mem)

lemma pickRandom_valid:
  "validRandom random \<Longrightarrow> arr \<noteq> [] \<Longrightarrow>
     (\<exists>x \<in> set arr. fst (pickRandom arr random) = Some x) \<and> validRandom (snd (pickRandom arr random))"
  using draw_valid[of random] floorIndex_unit[of "fst (draw random)" arr]
  by (simp add: pickRandom_def)

lemma repeatN_invariant:
  assumes "\<And>st. P st \<Longrightarrow> P (body st)" "P st"
  shows "P (repeatN n body st)"
  using assms(2) by (induction n arbitrary: st) (auto intro: assms(1))


lemma pushPick_cardsFrom:
  "set bucket \<subseteq> S \<Longrightarrow> cardsFrom S (fst st) \<Longrightarrow> cardsFrom S (fst (pushPick bucket st))"
  using pickRandom_mem[of bucket "snd st"]
  by (auto simp: pushPick_def cardsFrom_def)


lemma pushPick_valid:
  assumes "validRandom (snd st)"
  shows "validRandom (snd (pushPick bucket st))"
    and "bucket \<noteq> [] \<Longrightarrow> \<exists>c \<in> set bucket. fst (pushPick bucket st) = fst st @ [Some c]"
  using pickRandom_valid[OF assms, of bucket] assms
  by (auto simp: pushPick_def)


lemma repeat_pushPick_cardsFrom:
  "set bucket \<subseteq> S \<Longrightarrow> cardsFrom S (fst st) \<Longrightarrow>
     cardsFrom S (fst (repeatN n (pushPick bucket) st))"
  by (induction n arbitrary: st) (simp_all add: pushPick_cardsFrom)


lemma rareOrMythicDraw_cardsFrom:
  "set (rare b) \<subseteq> S \<Longrightarrow> set (mythic b) \<subseteq> S \<Longrightarrow> cardsFrom S (fst st) \<Longrightarrow>
     cardsFrom S (fst (rareOrMythicDraw t b st))"
  by (simp add: rareOrMythicDraw_def Let_def pushPick_cardsFrom)



lemma rareOrMythicDraw_mythic:
  assumes "validRandom (snd st)" "fst (draw (snd st)) < t" "mythic b \<noteq> []"
  shows "\<exists>c \<in> set (mythic b). fst (rareOrMythicDraw t b st) = fst st @ [Some c]"
proof -
  have v: "validRandom (snd (fst st, snd (draw (snd st))))"
    using draw_valid[OF assms(1)] by simp
  from pushPick_valid(2)[OF v assms(3)] assms(2,3) show ?thesis
    by (simp add: rareOrMythicDraw_def Let_def)
qed

lemma rareOrMythicDraw_rare:
  assumes "validRandom (snd st)" "\<not> (fst (draw (snd st)) < t \<and> mythic b \<noteq> [])" "rare b \<noteq> []"
  shows "\<exists>c \<in> set (rare b). fst (rareOrMythicDraw t b st) = fst st @ [Some c]"
proof -
  have v: "validRandom (snd (fst st, snd (draw (snd st))))"
    using draw_valid[OF assms(1)] by simp
  have "rareOrMythicDraw t b st = pushPick (rare b) (fst st, snd (draw (snd st)))"
    using assms(2) by (auto simp: rareOrMythicDraw_def Let_def)
  with pushPick_valid(2)[OF v assms(3)] show ?thesis
    by simp
qed

lemma rareOrMythicDraw_none:
  assumes "\<not> (fst (draw (snd st)) < t \<and> mythic b \<noteq> [])" "rare b = []"
  shows "fst (rareOrMythicDraw t b st) = fst st"
proof -
  have "rareOrMythicDraw t b st = pushPick (rare b) (fst st, snd (draw (snd st)))"
    using assms(1) by (auto simp: rareOrMythicDraw_def Let_def)
  then show ?thesis
    using assms(2) by (simp add: pushPick_def)
qed


lemma legacyPack_cardsFrom:
  assumes "set (common b) \<subseteq> S" "set (uncommon b) \<subseteq> S" "set (rare b) \<subseteq> S" "set (mythic b) \<subseteq> S"
    and "cardsFrom S (fst st)"
  shows "cardsFrom S (fst (legacyPack t b st))"
  unfolding legacyPack_def
  by (intro repeat_pushPick_cardsFrom rareOrMythicDraw_cardsFrom assms)

lemma groupByRarity_sets:
  "set (common (groupByRarity cards)) = {c \<in> set cards. rarity c = ''common''}"
  "set (uncommon (groupByRarity cards)) = {c \<in> set cards. rarity c = ''uncommon''}"
  "set (rare (groupByRarity cards)) = {c \<in> set cards. rarity c = ''rare''}"
  "set (mythic (groupByRarity cards)) = {c \<in> set cards. rarity c = ''mythic''}"
  by (auto simp: groupByRarity_def)




lemma newRandom_seeded: "truthy seed \<Longrightarrow> newRandom seed env1 = newRandom seed env2"
  by (cases seed) (simp_all add: newRandom_def truthy_def)


lemma generateSealedPoolWith_cardsFrom:
  "cardsFrom (set cards) (generateSealedPoolWith t cards seed env)"
proof -
  let ?b = "groupByRarity cards"
  have step: "cardsFrom (set cards) (fst (legacyPack t ?b st))"
    if "cardsFrom (set cards) (fst st)" for st
    by (rule legacyPack_cardsFrom) (use that in \<open>auto simp: groupByRarity_sets\<close>)
  have "cardsFrom (set cards) (fst (repeatN 6 (legacyPack t ?b) ([], newRandom seed env)))"
  proof (rule repeatN_invariant[where P = "\<lambda>st. cardsFrom (set cards) (fst st)"])
    show "cardsFrom (set cards) (fst ([], newRandom seed env))"
      by (simp add: cardsFrom_def)
  qed (rule step)
  then show ?thesis
    by (simp add: generateSealedPoolWith_def)
qed

section \<open>Claims about the legacy generator\<close>

lemma newRandom_falsy: "\<not> truthy seed \<Longrightarrow> newRandom seed env = MathRandom env"
  by (cases seed) (simp_all add: newRandom_def)

lemma pool_of_two_rares_low:
  "fst (repeatN 6 (legacyPack (1 / 8) (groupByRarity [rareA, rareB])) ([], MathRandom (\<lambda>n. 0)))
     = replicate 6 (Some rareA)"
  by (simp add: legacyPack_def rareOrMythicDraw_def pushPick_def pickRandom_def floorIndex_def
      groupByRarity_def rareA_def rareB_def eval_nat_numeral)

lemma pool_of_two_rares_high:
  "fst (repeatN 6 (legacyPack (1 / 8) (groupByRarity [rareA, rareB])) ([], MathRandom (\<lambda>n. 1 / 2)))
     = replicate 6 (Some rareB)"
  by (simp add: legacyPack_def rareOrMythicDraw_def pushPick_def pickRandom_def floorIndex_def
      groupByRarity_def rareA_def rareB_def eval_nat_numeral)

lemma rareA_neq_rareB: "rareA \<noteq> rareB"
  by (simp add: rareA_def rareB_def)

lemma generateSealedPoolFromBoosterData_seeded:
  assumes "newRandom seed env1 = newRandom seed env2"
  shows "generateSealedPoolFromBoosterData boosters files setCode cards numPacks seed env1
         = generateSealedPoolFromBoosterData boosters files setCode cards numPacks seed env2"
  unfolding generateSealedPoolFromBoosterData_def generateSealedPool_def
    generateSealedPoolWith_def assms ..

text \<open>
  With a truthy seed every draw comes from the one seeded generator state that is
  threaded through every loop, so the pool of the legacy generator does not depend on
  what \<open>Math.random\<close> gives; nor does the pool of the booster-data generator, for the
  booster data that its call loads.
\<close>

lemma seeded_pool_independent:
  assumes "truthy seed"
  shows "generateSealedPool cards seed env1 = generateSealedPool cards seed env2
       \<and> generateSealedPool_shared cards seed env1 = generateSealedPool_shared cards seed env2
       \<and> generateSealedPoolFromBoosterData boosters files setCode cards numPacks seed env1
         = generateSealedPoolFromBoosterData boosters files setCode cards numPacks seed env2
       \<and> (\<exists>s. newRandom seed env1 = Mulberry32 s \<and> newRandom seed env2 = Mulberry32 s)"
proof -
  have eq: "newRandom seed env1 = newRandom seed env2"
    by (rule newRandom_seeded[OF assms])
  have "\<exists>s. newRandom seed env1 = Mulberry32 s"
    using assms by (cases seed) (simp_all add: newRandom_def truthy_def)
  with eq show ?thesis
    using generateSealedPoolFromBoosterData_seeded[OF eq]
    by (simp add: generateSealedPool_def generateSealedPool_shared_def generateSealedPoolWith_def)
qed

lemma mulberry32_seed_zero:
  "mulberry32 (seededRandom (SeedNumber 0)) = (1144304738 / 4294967296, 1831565813)"
  by (simp add: seededRandom_def mulberry32_def Let_def)

text \<open>
  Claim C1. For every catalog and every seed, two calls of the generator with the same
  seed and the same catalog give the same pool. The code does not do so for the seeds 0
  and the empty string. \<open>seededRandom\<close> accepts them (from the seed 0 its first number is
  1144304738 / 4294967296), but the generator tests \<open>seed\<close> for truth, takes them as no
  seed and draws from \<open>Math.random\<close>: with the seed 0, or the empty string, and the
  catalog of two rares, one call returns six times the first rare and another call six
  times the second, as the numbers of \<open>Math.random\<close> fall.
\<close>

theorem falsy_seed_pools_differ:
  "generateSealedPool [rareA, rareB] (Some (SeedNumber 0)) (\<lambda>n. 0) = replicate 6 (Some rareA)
   \<and> generateSealedPool [rareA, rareB] (Some (SeedNumber 0)) (\<lambda>n. 1 / 2)
       = replicate 6 (Some rareB)
   \<and> generateSealedPool [rareA, rareB] (Some (SeedString [])) (\<lambda>n. 0)
       = replicate 6 (Some rareA)
   \<and> generateSealedPool [rareA, rareB] (Some (SeedString [])) (\<lambda>n. 1 / 2)
       = replicate 6 (Some rareB)
   \<and> replicate 6 (Some rareA) \<noteq> replicate 6 (Some rareB)
   \<and> mulberry32 (seededRandom (SeedNumber 0)) = (1144304738 / 4294967296, 1831565813)"
proof -
  have f: "\<not> truthy (Some (SeedNumber 0))" "\<not> truthy (Some (SeedString []))"
    by (simp_all add: truthy_def)
  have ne: "replicate 6 (Some rareA) \<noteq> replicate 6 (Some rareB)"
    using rareA_neq_rareB by (simp add: eval_nat_numeral)
  have pools: "generateSealedPool [rareA, rareB] (Some (SeedNumber 0)) (\<lambda>n. 0)
        = replicate 6 (Some rareA)"
    "generateSealedPool [rareA, rareB] (Some (SeedNumber 0)) (\<lambda>n. 1 / 2)
        = replicate 6 (Some rareB)"
    "generateSealedPool [rareA, rareB] (Some (SeedString [])) (\<lambda>n. 0)
        = replicate 6 (Some rareA)"
    "generateSealedPool [rareA, rareB] (Some (SeedString [])) (\<lambda>n. 1 / 2)
        = replicate 6 (Some rareB)"
    by (simp_all only: generateSealedPool_def generateSealedPoolWith_def
        newRandom_falsy[OF f(1)] newRandom_falsy[OF f(2)]
        pool_of_two_rares_low pool_of_two_rares_high)
  from pools ne mulberry32_seed_zero show ?thesis
    by (simp only:) simp
qed

lemma mythicRule_holds:
  assumes "validRandom (snd st)"
  shows "mythicRule t cards st"
proof -
  let ?b = "groupByRarity cards"
  consider (m) "fst (draw (snd st)) < t \<and> mythic ?b \<noteq> []"
    | (r) "\<not> (fst (draw (snd st)) < t \<and> mythic ?b \<noteq> [])" "rare ?b \<noteq> []"
    | (n) "\<not> (fst (draw (snd st)) < t \<and> mythic ?b \<noteq> [])" "rare ?b = []"
    by blast
  then show ?thesis
  proof cases
    case m
    then obtain c where "c \<in> set (mythic ?b)" "fst (rareOrMythicDraw t ?b st) = fst st @ [Some c]"
      using rareOrMythicDraw_mythic[OF assms, of t ?b] by blast
    then have "\<exists>c \<in> set cards. rarity c = ''mythic'' \<and> fst (rareOrMythicDraw t ?b st) = fst st @ [Some c]"
      by (auto simp: groupByRarity_sets)
    with m show ?thesis
      by (simp add: mythicRule_def Let_def)
  next
    case r
    then obtain c where "c \<in> set (rare ?b)" "fst (rareOrMythicDraw t ?b st) = fst st @ [Some c]"
      using rareOrMythicDraw_rare[OF assms, of t ?b] by blast
    then have "\<exists>c \<in> set cards. rarity c = ''rare'' \<and> fst (rareOrMythicDraw t ?b st) = fst st @ [Some c]"
      by (auto simp: groupByRarity_sets)
    with r show ?thesis
      by (auto simp: mythicRule_def Let_def)
  next
    case n
    then show ?thesis
      using rareOrMythicDraw_none[of st t ?b] by (auto simp: mythicRule_def Let_def)
  qed
qed

lemma pool_rare_mythic_shared:
  "fst (repeatN 6 (legacyPack (1 / 7) (groupByRarity [rareA, mythicM]))
          ([], MathRandom (\<lambda>n. 13 / 100)))
     = replicate 6 (Some mythicM)"
  by (simp add: legacyPack_def rareOrMythicDraw_def pushPick_def pickRandom_def floorIndex_def
      groupByRarity_def rareA_def mythicM_def eval_nat_numeral)

lemma pool_rare_mythic_eighth:
  "fst (repeatN 6 (legacyPack (1 / 8) (groupByRarity [rareA, mythicM]))
          ([], MathRandom (\<lambda>n. 13 / 100)))
     = replicate 6 (Some rareA)"
  by (simp add: legacyPack_def rareOrMythicDraw_def pushPick_def pickRandom_def floorIndex_def
      groupByRarity_def rareA_def mythicM_def eval_nat_numeral)

text \<open>
  Claim C5, as the specification states it: the legacy generator substitutes a mythic
  exactly when the fresh draw is below 0.125 and there are mythics. The copy of the
  generator in \<open>shared/mtg.js\<close> compares with 1/7: with every draw at 0.13, which is
  not below 0.125, each of its six packs opens with the mythic, where the copy with the
  constant 0.125 gives the rare.
\<close>

theorem shared_copy_threshold_counterexample:
  "\<not> (13 / 100 < (1 / 8 :: rat))
   \<and> generateSealedPool_shared [rareA, mythicM] None (\<lambda>n. 13 / 100) = replicate 6 (Some mythicM)
   \<and> generateSealedPool [rareA, mythicM] None (\<lambda>n. 13 / 100) = replicate 6 (Some rareA)"
  by (simp add: generateSealedPool_shared_def generateSealedPool_def generateSealedPoolWith_def
      newRandom_def pool_rare_mythic_shared pool_rare_mythic_eighth)

text \<open>
  Claim C5, amended. In each copy of the legacy generator every pack opens with the
  rare-or-mythic draw, which substitutes a mythic for the rare exactly when a fresh
  random draw is below the copy's fixed threshold and the mythic bucket is not empty.
  The threshold is 0.125 in the copy that also has the booster-data generator and 1/7
  in \<open>shared/mtg.js\<close>.
\<close>

theorem mythic_substitution_rule:
  assumes "validRandom (snd st)"
  shows "mythicRule (1 / 8) cards st
       \<and> generateSealedPool cards seed env =
           fst (repeatN 6
                  (\<lambda>st. repeatN 10 (pushPick (common (groupByRarity cards)))
                          (repeatN 3 (pushPick (uncommon (groupByRarity cards)))
                             (rareOrMythicDraw (1 / 8) (groupByRarity cards) st)))
                  ([], newRandom seed env))
       \<and> mythicRule (1 / 7) cards st
       \<and> generateSealedPool_shared cards seed env =
           fst (repeatN 6
                  (\<lambda>st. repeatN 10 (pushPick (common (groupByRarity cards)))
                          (repeatN 3 (pushPick (uncommon (groupByRarity cards)))
                             (rareOrMythicDraw (1 / 7) (groupByRarity cards) st)))
                  ([], newRandom seed env))"
proof -
  have "legacyPack t b = (\<lambda>st. repeatN 10 (pushPick (common b))
                          (repeatN 3 (pushPick (uncommon b)) (rareOrMythicDraw t b st)))" for t b
    by (rule ext) (simp add: legacyPack_def)
  then show ?thesis
    using mythicRule_holds[OF assms]
    by (simp add: generateSealedPool_def generateSealedPool_shared_def generateSealedPoolWith_def)
qed

theorem mythic_substitution_rule_witness:
  "validRandom (snd ([], MathRandom (\<lambda>n. 1 / 10)))
   \<and> fst (draw (MathRandom (\<lambda>n. 1 / 10))) < 1 / 8
   \<and> mythic (groupByRarity [rareA, mythicM]) \<noteq> []
   \<and> fst (rareOrMythicDraw (1 / 8) (groupByRarity [rareA, mythicM]) ([], MathRandom (\<lambda>n. 1 / 10)))
       = [Some mythicM]"
proof -
  have h: "validRandom (snd ([], MathRandom (\<lambda>n. 1 / 10)))"
    by simp
  have m: "mythic (groupByRarity [rareA, mythicM]) = [mythicM]"
    by (simp add: groupByRarity_def rareA_def mythicM_def)
  have d: "fst (draw (MathRandom (\<lambda>n. 1 / 10))) < 1 / 8"
    by simp
  have ra: "rarity rareA \<noteq> ''mythic''"
    by (simp add: rareA_def)
  have "mythicRule (1 / 8) [rareA, mythicM] ([], MathRandom (\<lambda>n. 1 / 10))"
    using mythic_substitution_rule[OF h] by blast
  then have "\<exists>c \<in> set [rareA, mythicM]. rarity c = ''mythic''
      \<and> fst (rareOrMythicDraw (1 / 8) (groupByRarity [rareA, mythicM]) ([], MathRandom (\<lambda>n. 1 / 10)))
          = [Some c]"
    using d m by (simp add: mythicRule_def Let_def)
  then have "fst (rareOrMythicDraw (1 / 8) (groupByRarity [rareA, mythicM]) ([], MathRandom (\<lambda>n. 1 / 10)))
       = [Some mythicM]"
    using ra by auto
  with h m d show ?thesis by simp
qed




section \<open>Claims about the cards of a pool\<close>

lemma addUnique_subset: "set (addUnique bucket matching) \<subseteq> set bucket \<union> set matching"
  by (induction bucket matching rule: addUnique.induct) auto

lemma addRarity_dictFrom:
  assumes "dictFrom (set cards) dict"
  shows "dictFrom (set cards) (addRarity cards ranges dict r)"
proof -
  define bucket where "bucket = (case dict r of None \<Rightarrow> [] | Some b \<Rightarrow> b)"
  define matching where "matching = filter (\<lambda>c. rarity c = r \<and> inRanges ranges c) cards"
  have b: "set bucket \<subseteq> set cards"
    unfolding bucket_def using assms by (cases "dict r") (auto simp: dictFrom_def)
  have m: "set matching \<subseteq> set cards"
    unfolding matching_def by auto
  have u: "set (addUnique bucket matching) \<subseteq> set cards"
    using addUnique_subset[of bucket matching] b m by blast
  have "addRarity cards ranges dict r = dict(r \<mapsto> addUnique bucket matching)"
    by (simp add: addRarity_def bucket_def matching_def Let_def)
  then show ?thesis
    using assms u by (auto simp: dictFrom_def)
qed

lemma foldl_addRarity_dictFrom:
  "dictFrom (set cards) dict \<Longrightarrow> dictFrom (set cards) (foldl (addRarity cards ranges) dict rs)"
  by (induction rs arbitrary: dict) (simp_all add: addRarity_dictFrom)

lemma groupSlot_dictFrom:
  "dictFrom (set cards) dict \<Longrightarrow> dictFrom (set cards) (groupSlot cards dict s)"
  by (simp add: groupSlot_def foldl_addRarity_dictFrom split: option.splits)

lemma foldl_groupSlot_dictFrom:
  "dictFrom (set cards) dict \<Longrightarrow> dictFrom (set cards) (foldl (groupSlot cards) dict ss)"
  by (induction ss arbitrary: dict) (simp_all add: groupSlot_dictFrom)

lemma cardsByRarityInPool_dictFrom: "dictFrom (set cards) (cardsByRarityInPool cards ss)"
  unfolding cardsByRarityInPool_def
  by (rule foldl_groupSlot_dictFrom) (simp add: dictFrom_def)

lemma bucketOf_subset: "dictFrom S dict \<Longrightarrow> set (bucketOf dict r) \<subseteq> S"
  by (cases "dict r") (auto simp: bucketOf_def dictFrom_def)

lemma allInPool_subset: "set (allInPool cards ss) \<subseteq> set cards"
  by (auto simp: allInPool_def)

lemma pushCard_subset:
  "set bucket \<subseteq> S \<Longrightarrow> set (fst st) \<subseteq> S \<Longrightarrow> set (fst (pushCard bucket st)) \<subseteq> S"
  using pickRandom_mem[of bucket "snd st"]
  by (auto simp: pushCard_def split: option.splits)

lemma slotDraw_subset:
  assumes "dictFrom S dict" "set inPool \<subseteq> S" "set (fst st) \<subseteq> S"
  shows "set (fst (slotDraw dict inPool s p st)) \<subseteq> S"
proof (cases "slot_rarities s")
  case None
  have "set (filter (inRanges (slotRanges p)) inPool) \<subseteq> S"
    using assms(2) by auto
  then show ?thesis
    using None assms(3) by (simp add: slotDraw_def pushCard_subset)
next
  case (Some rs)
  have "set (fst (pushCard (bucketOf dict r) (fst st, rnd))) \<subseteq> S" for r rnd
    by (rule pushCard_subset) (simp_all add: bucketOf_subset[OF assms(1)] assms(3))
  then show ?thesis
    using Some by (simp add: slotDraw_def Let_def)
qed

lemma packSlot_subset:
  assumes "dictFrom S dict" "set inPool \<subseteq> S" "set (fst st) \<subseteq> S"
  shows "set (fst (packSlot dict inPool st s)) \<subseteq> S"
proof -
  have "set (fst (repeatN n (slotDraw dict inPool s p) st)) \<subseteq> S" for n p
    by (rule repeatN_invariant[where P = "\<lambda>st. set (fst st) \<subseteq> S"])
       (simp_all add: slotDraw_subset[OF assms(1,2)] assms(3))
  then show ?thesis
    using assms(3) by (simp add: packSlot_def split: option.splits)
qed

lemma boosterPack_subset:
  assumes "dictFrom S dict" "set inPool \<subseteq> S"
  shows "set (fst st) \<subseteq> S \<Longrightarrow> set (fst (boosterPack dict inPool ss st)) \<subseteq> S"
  unfolding boosterPack_def
  by (induction ss arbitrary: st) (simp_all add: packSlot_subset[OF assms])

lemma booster_pool_subset:
  "set (fst (repeatN numPacks
               (boosterPack (cardsByRarityInPool cards ss) (allInPool cards ss) ss)
               ([], random))) \<subseteq> set cards"
  by (rule repeatN_invariant[where P = "\<lambda>st. set (fst st) \<subseteq> set cards"])
     (simp_all add: boosterPack_subset[OF cardsByRarityInPool_dictFrom allInPool_subset])

lemma generateSealedPoolFromBoosterData_cardsFrom:
  "cardsFrom (set cards)
     (generateSealedPoolFromBoosterData boosters files setCode cards numPacks seed env)"
proof -
  have legacy: "cardsFrom (set cards) (generateSealedPool cards seed env)"
    unfolding generateSealedPool_def by (rule generateSealedPoolWith_cardsFrom)
  have booster: "cardsFrom (set cards) (map Some (fst (repeatN numPacks
               (boosterPack (cardsByRarityInPool cards ss) (allInPool cards ss) ss)
               ([], newRandom seed env))))" for ss
    using booster_pool_subset[of numPacks cards ss "newRandom seed env"]
    by (auto simp: cardsFrom_def)
  show ?thesis
    unfolding generateSealedPoolFromBoosterData_def
    by (simp add: legacy booster Let_def split: option.splits)
qed

text \<open>With a random source that stays in the unit interval the legacy pool has no
  \<open>undefined\<close> entry.\<close>

lemma pushPick_defined:
  assumes "validRandom (snd st)" "None \<notin> set (fst st)"
  shows "validRandom (snd (pushPick bucket st)) \<and> None \<notin> set (fst (pushPick bucket st))"
proof (cases "bucket = []")
  case True
  then show ?thesis using assms by (simp add: pushPick_def)
next
  case False
  from pushPick_valid[OF assms(1), of bucket] False assms(2) show ?thesis
    by auto
qed

lemma legacyPack_defined:
  assumes "validRandom (snd st) \<and> None \<notin> set (fst st)"
  shows "validRandom (snd (legacyPack t b st)) \<and> None \<notin> set (fst (legacyPack t b st))"
proof -
  have d: "validRandom (snd (fst st, snd (draw (snd st))))
             \<and> None \<notin> set (fst (fst st, snd (draw (snd st))))"
    using assms draw_valid[of "snd st"] by simp
  have r: "validRandom (snd (rareOrMythicDraw t b st))
             \<and> None \<notin> set (fst (rareOrMythicDraw t b st))"
    unfolding rareOrMythicDraw_def Let_def
    using d pushPick_defined by blast
  have u: "validRandom (snd (repeatN 3 (pushPick (uncommon b)) (rareOrMythicDraw t b st)))
             \<and> None \<notin> set (fst (repeatN 3 (pushPick (uncommon b)) (rareOrMythicDraw t b st)))"
    by (rule repeatN_invariant[where P = "\<lambda>st. validRandom (snd st) \<and> None \<notin> set (fst st)"])
       (use r pushPick_defined in blast)+
  show ?thesis
    unfolding legacyPack_def
    by (rule repeatN_invariant[where P = "\<lambda>st. validRandom (snd st) \<and> None \<notin> set (fst st)"])
       (use u pushPick_defined in blast)+
qed

lemma generateSealedPoolWith_defined:
  assumes "validRandom (newRandom seed env)"
  shows "None \<notin> set (generateSealedPoolWith t cards seed env)"
proof -
  have "validRandom (snd (repeatN 6 (legacyPack t (groupByRarity cards)) ([], newRandom seed env)))
        \<and> None \<notin> set (fst (repeatN 6 (legacyPack t (groupByRarity cards)) ([], newRandom seed env)))"
    by (rule repeatN_invariant[where P = "\<lambda>st. validRandom (snd st) \<and> None \<notin> set (fst st)"])
       (use assms legacyPack_defined in auto)
  then show ?thesis
    by (simp add: generateSealedPoolWith_def)
qed

lemma generateSealedPoolFromBoosterData_defined:
  assumes "validRandom (newRandom seed env)"
  shows "None \<notin> set (generateSealedPoolFromBoosterData boosters files setCode cards numPacks seed env)"
  using generateSealedPoolWith_defined[OF assms, of "1 / 8" cards]
  unfolding generateSealedPoolFromBoosterData_def generateSealedPool_def
  by (auto simp: Let_def split: option.splits)

text \<open>
  Claim C9. For every catalog, seed, pack count and booster data, every card in the pool
  that either generator returns (the booster-data generator, with its fall-back, and both
  copies of the legacy generator) is an element of the catalog; and with a random source
  that stays in the unit interval every entry of the pool is such a card.
\<close>

theorem pool_cards_from_catalog:
  "(Some c \<in> set (generateSealedPoolFromBoosterData boosters files setCode cards numPacks seed env)
      \<longrightarrow> c \<in> set cards)
   \<and> (Some c \<in> set (generateSealedPool cards seed env) \<longrightarrow> c \<in> set cards)
   \<and> (Some c \<in> set (generateSealedPool_shared cards seed env) \<longrightarrow> c \<in> set cards)
   \<and> (validRandom (newRandom seed env) \<longrightarrow>
        None \<notin> set (generateSealedPoolFromBoosterData boosters files setCode cards numPacks seed env)
        \<and> None \<notin> set (generateSealedPool cards seed env)
        \<and> None \<notin> set (generateSealedPool_shared cards seed env))"
  using generateSealedPoolFromBoosterData_cardsFrom[of cards boosters files setCode numPacks seed env]
    generateSealedPoolWith_cardsFrom[of cards "1 / 8" seed env]
    generateSealedPoolWith_cardsFrom[of cards "1 / 7" seed env]
    generateSealedPoolFromBoosterData_defined[of seed env boosters files setCode cards numPacks]
    generateSealedPoolWith_defined[of seed env "1 / 8" cards]
    generateSealedPoolWith_defined[of seed env "1 / 7" cards]
  by (simp add: cardsFrom_def generateSealedPool_def generateSealedPool_shared_def)

lemma isInRange_seven: "isInRange ''7'' ''1-10''" "isInRange ''7'' ''7''"
  by (simp_all add: isInRange_def parseInt10_def isWhiteSpace_def isDigit_def digitsValue_def)

lemma rareA_fields: "collector_number rareA = ''7''" "rarity rareA = ''rare''"
  by (simp_all add: rareA_def)

lemma test_dict:
  "cardsByRarityInPool [rareA] [rareSlot, wildcardSlot] = [''rare'' \<mapsto> [rareA]]"
  by (simp add: cardsByRarityInPool_def groupSlot_def rareSlot_def wildcardSlot_def
      addRarity_def slotRanges_def inRanges_def rareA_fields isInRange_seven)

lemma test_allInPool: "allInPool [rareA] [rareSlot, wildcardSlot] = [rareA]"
  by (simp add: allInPool_def rareSlot_def wildcardSlot_def slotRanges_def inRanges_def
      rareA_fields isInRange_seven)

lemma test_rareSlot:
  "packSlot [''rare'' \<mapsto> [rareA]] [rareA] (pool, MathRandom (\<lambda>n. 0)) rareSlot
     = (pool @ [rareA], MathRandom (\<lambda>n. 0))"
  by (simp add: packSlot_def slotDraw_def chooseRarity_def pushCard_def pickRandom_def
      floorIndex_def bucketOf_def rareSlot_def)

lemma test_wildcardSlot:
  "packSlot [''rare'' \<mapsto> [rareA]] [rareA] (pool, MathRandom (\<lambda>n. 0)) wildcardSlot
     = (pool @ [rareA], MathRandom (\<lambda>n. 0))"
  by (simp add: packSlot_def slotDraw_def pushCard_def pickRandom_def floorIndex_def
      wildcardSlot_def slotRanges_def inRanges_def rareA_fields isInRange_seven)

lemma test_booster_pool:
  "generateSealedPoolFromBoosterData testBoosters testFiles ''tst'' [rareA] 1 None (\<lambda>n. 0)
     = [Some rareA, Some rareA]"
  unfolding generateSealedPoolFromBoosterData_def
  by (simp add: testBoosters_def testFiles_def test_dict test_allInPool newRandom_def
      boosterPack_def test_rareSlot test_wildcardSlot)

theorem pool_cards_from_catalog_witness:
  "Some rareA \<in> set (generateSealedPoolFromBoosterData testBoosters testFiles ''tst'' [rareA] 1
                       None (\<lambda>n. 0))
   \<and> rareA \<in> set [rareA]
   \<and> validRandom (newRandom None (\<lambda>n. 0))
   \<and> None \<notin> set (generateSealedPoolFromBoosterData testBoosters testFiles ''tst'' [rareA] 1
                    None (\<lambda>n. 0))
   \<and> Some rareA \<in> set (generateSealedPool [rareA, rareB] None (\<lambda>n. 0))
   \<and> rareA \<in> set [rareA, rareB]
   \<and> None \<notin> set (generateSealedPool [rareA, rareB] None (\<lambda>n. 0))"
proof -
  have h1: "Some rareA \<in> set (generateSealedPoolFromBoosterData testBoosters testFiles ''tst''
                                [rareA] 1 None (\<lambda>n. 0))"
    using test_booster_pool by simp
  have h2: "validRandom (newRandom None (\<lambda>n. 0))"
    by (simp add: newRandom_def)
  have h3: "Some rareA \<in> set (generateSealedPool [rareA, rareB] None (\<lambda>n. 0))"
  proof -
    have "generateSealedPool [rareA, rareB] None (\<lambda>n. 0) = replicate 6 (Some rareA)"
      by (simp only: generateSealedPool_def generateSealedPoolWith_def newRandom_def
          option.case pool_of_two_rares_low)
    then show ?thesis
      by (simp add: eval_nat_numeral)
  qed
  from h1 h2 h3
    pool_cards_from_catalog[of rareA testBoosters testFiles "''tst''" "[rareA]" 1 None "\<lambda>n. 0"]
    pool_cards_from_catalog[of rareA testBoosters testFiles "''tst''" "[rareA, rareB]" 1 None "\<lambda>n. 0"]
  show ?thesis by simp
qed

end
